theory Spec2Isabelle
  imports Complex_Main "HOL-Library.Sublist"
begin

section \<open>Data model of the Responses protocol (routes/responses/types)\<close>

text \<open>
  The declarations follow \<^verbatim>\<open>ResponsesContentPart\<close>, \<^verbatim>\<open>ResponsesInputItem\<close> and
  \<^verbatim>\<open>ResponsesPayload\<close>. An optional field \<^verbatim>\<open>f?: T\<close> is a \<open>T option\<close>, a union
  \<^verbatim>\<open>string | Array<...>\<close> is a datatype with one constructor per alternative.
  Constructor arguments are in the order of the fields of the interface:
  \<open>InputImage image_url detail\<close>, \<open>InputFile file_url filename file_data file_id\<close>,
  \<open>AssistantMessage content id\<close>, \<open>MessageInput role content id\<close>,
  \<open>FunctionCall call_id name arguments id\<close>, \<open>FunctionCallOutput call_id output\<close>.
  JavaScript numbers that are counters, indexes or timestamps are \<open>int\<close> or \<open>nat\<close>;
  the sampling parameters, which are only copied, are \<open>real\<close>.
\<close>

datatype ResponsesContentPart =
    InputText string
  | InputImage string "string option"
  | InputFile "string option" "string option" "string option" "string option"
  | OutputText string

text \<open>\<^verbatim>\<open>string | Array<ResponsesContentPart>\<close>\<close>

datatype ResponsesContent =
    ContentString string
  | ContentArray "ResponsesContentPart list"

datatype MessageRole = RoleUser | RoleAssistant

datatype ResponsesInputItem =
    SystemMessage string
  | DeveloperMessage string
  | UserMessage ResponsesContent
  | AssistantMessage ResponsesContent "string option"
  | MessageInput MessageRole ResponsesContent "string option"
  | FunctionCall string string string "string option"
  | FunctionCallOutput string ResponsesContent
  | ItemReference string

section \<open>Orphan filtering in \<^verbatim>\<open>handleResponses\<close>\<close>

text \<open>
  First loop of \<^verbatim>\<open>handleResponses\<close>: every \<^verbatim>\<open>function_call\<close> item of the whole
  input adds its \<^verbatim>\<open>call_id\<close> to the set \<^verbatim>\<open>functionCallIds\<close>.
\<close>

fun addFunctionCallId :: "string set \<Rightarrow> ResponsesInputItem \<Rightarrow> string set" where
  "addFunctionCallId ids (FunctionCall cid n a i) = insert cid ids"
| "addFunctionCallId ids item = ids"

definition functionCallIds :: "ResponsesInputItem list \<Rightarrow> string set" where
  "functionCallIds input = foldl addFunctionCallId {} input"

text \<open>
  Second loop: the \<^verbatim>\<open>call_id\<close> of every \<^verbatim>\<open>function_call_output\<close> item that is not
  in the set is pushed onto \<^verbatim>\<open>orphanOutputs\<close>.
\<close>

fun pushOrphan :: "string set \<Rightarrow> string list \<Rightarrow> ResponsesInputItem \<Rightarrow> string list" where
  "pushOrphan ids acc (FunctionCallOutput cid out) = (if cid \<notin> ids then acc @ [cid] else acc)"
| "pushOrphan ids acc item = acc"

definition orphanOutputs :: "string set \<Rightarrow> ResponsesInputItem list \<Rightarrow> string list" where
  "orphanOutputs ids input = foldl (pushOrphan ids) [] input"

text \<open>The predicate given to \<^verbatim>\<open>payload.input.filter\<close>.\<close>

fun keepItem :: "string set \<Rightarrow> ResponsesInputItem \<Rightarrow> bool" where
  "keepItem ids (FunctionCallOutput cid out) = (cid \<in> ids)"
| "keepItem ids item = True"

text \<open>
  The whole pass: the input is replaced by the filtered one only when
  \<^verbatim>\<open>orphanOutputs.length > 0\<close>. The declared type of \<^verbatim>\<open>payload.input\<close> is an array, so
  the guards \<^verbatim>\<open>if (payload.input)\<close> are always taken.
\<close>

definition filterOrphans :: "ResponsesInputItem list \<Rightarrow> ResponsesInputItem list" where
  "filterOrphans input =
     (let ids = functionCallIds input;
          orphans = orphanOutputs ids input
      in if length orphans > 0 then filter (keepItem ids) input else input)"

subsection \<open>Properties stated about a sequence of input items\<close>

fun isFunctionCallOutput :: "ResponsesInputItem \<Rightarrow> bool" where
  "isFunctionCallOutput (FunctionCallOutput cid out) = True"
| "isFunctionCallOutput item = False"

text \<open>
  \<open>outputsFollowCalls seen xs\<close>: walking \<open>xs\<close> from the left with the call ids \<open>seen\<close> so
  far, every \<^verbatim>\<open>function_call_output\<close> has its \<^verbatim>\<open>call_id\<close> among the
  \<^verbatim>\<open>function_call\<close> items before it.
\<close>

fun outputsFollowCalls :: "string set \<Rightarrow> ResponsesInputItem list \<Rightarrow> bool" where
  "outputsFollowCalls seen [] = True"
| "outputsFollowCalls seen (FunctionCallOutput cid out # xs) =
     (cid \<in> seen \<and> outputsFollowCalls seen xs)"
| "outputsFollowCalls seen (x # xs) = outputsFollowCalls (addFunctionCallId seen x) xs"

text \<open>
  \<open>outputsHaveCalls xs\<close>: every \<^verbatim>\<open>function_call_output\<close> of \<open>xs\<close> has its
  \<^verbatim>\<open>call_id\<close> on some \<^verbatim>\<open>function_call\<close> item of \<open>xs\<close>, before or after it.
\<close>

definition outputsHaveCalls :: "ResponsesInputItem list \<Rightarrow> bool" where
  "outputsHaveCalls xs = list_all (keepItem (functionCallIds xs)) xs"

section \<open>Request envelope and Chat-Completions payload\<close>

text \<open>
  A value of type \<^verbatim>\<open>Record<string, unknown>\<close> is a JSON value. It is only copied.
\<close>

datatype json =
    JNull
  | JBool bool
  | JNumber real
  | JString string
  | JArray "json list"
  | JObject "(string \<times> json) list"

text \<open>\<^verbatim>\<open>ResponsesTool\<close>; its \<^verbatim>\<open>type\<close> is always \<^verbatim>\<open>"function"\<close>.\<close>

record ResponsesTool =
  tool_name :: string
  tool_description :: "string option"
  tool_parameters :: json
  tool_strict :: "bool option"

text \<open>
  \<^verbatim>\<open>tool_choice?: "none" | "auto" | "required" | { type: "function"; name: string }\<close>
\<close>

datatype ToolChoiceMode = ChoiceNone | ChoiceAuto | ChoiceRequired

datatype ResponsesToolChoice =
    ChoiceMode ToolChoiceMode
  | ChoiceNamed string

record ResponsesPayload =
  model :: string
  input :: "ResponsesInputItem list"
  instructions :: "string option"
  max_output_tokens :: "int option"
  temperature :: "real option"
  top_p :: "real option"
  stream :: "bool option"
  tools :: "ResponsesTool list option"
  tool_choice :: "ResponsesToolChoice option"
  metadata :: "json option"
  store :: "bool option"
  previous_response_id :: "string option"

text \<open>
  The Chat-Completions types are imported by the source from
  \<^verbatim>\<open>~/services/copilot/create-chat-completions\<close>. The records below have the fields that
  the translation functions write and read, under the names used there.
  \<open>ImageUrlPart url detail\<close> is \<^verbatim>\<open>{type: "image_url", image_url: {url, detail}}\<close>, the only
  content part the translation builds.
\<close>

datatype ContentPart = ImageUrlPart string "string option"

text \<open>\<^verbatim>\<open>string | Array<ContentPart> | null\<close>\<close>

datatype ChatContent =
    ChatNull
  | ChatString string
  | ChatParts "ContentPart list"

text \<open>
  A tool call \<^verbatim>\<open>{id, type: "function", function: {name, arguments}}\<close>.
\<close>

record ToolCall =
  tc_id :: string
  tc_name :: string
  tc_arguments :: string

record Message =
  role :: string
  content :: ChatContent
  tool_calls :: "ToolCall list option"
  tool_call_id :: "string option"

text \<open>\<^verbatim>\<open>Tool\<close>: \<^verbatim>\<open>{type: "function", function: {name, description, parameters}}\<close>.\<close>

record Tool =
  fn_name :: string
  fn_description :: "string option"
  fn_parameters :: json

datatype ChatToolChoice =
    ChatChoiceMode ToolChoiceMode
  | ChatChoiceFunction string

record ChatCompletionsPayload =
  chat_model :: string
  messages :: "Message list"
  chat_temperature :: "real option"
  chat_top_p :: "real option"
  max_tokens :: "int option"
  chat_stream :: "bool option"
  chat_tools :: "Tool list option"
  chat_tool_choice :: "ChatToolChoice option"

section \<open>Request translation (routes/responses/translation)\<close>

text \<open>
  JavaScript truthiness of a value of type \<^verbatim>\<open>string | null | undefined\<close>: the empty
  string, \<^verbatim>\<open>null\<close> and \<^verbatim>\<open>undefined\<close> are falsy. \<open>jsOr a b\<close> is \<^verbatim>\<open>a || b\<close>.
\<close>

fun truthy :: "string option \<Rightarrow> bool" where
  "truthy None = False"
| "truthy (Some s) = (s \<noteq> [])"

definition jsOr :: "string option \<Rightarrow> string option \<Rightarrow> string option" where
  "jsOr a b = (if truthy a then a else b)"

text \<open>
  \<^verbatim>\<open>translateResponsesContentToChatContent\<close>. The loop over the array returns at the first
  text part; \<open>contentLoop parts rest\<close> is the loop with the parts pushed so far.
\<close>

fun contentLoop :: "ContentPart list \<Rightarrow> ResponsesContentPart list \<Rightarrow> ChatContent" where
  "contentLoop parts [] = (if length parts > 0 then ChatParts parts else ChatNull)"
| "contentLoop parts (InputText t # rest) = ChatString t"
| "contentLoop parts (OutputText t # rest) = ChatString t"
| "contentLoop parts (InputImage url d # rest) = contentLoop (parts @ [ImageUrlPart url d]) rest"
| "contentLoop parts (InputFile u n d i # rest) = contentLoop parts rest"

fun translateResponsesContentToChatContent :: "ResponsesContent \<Rightarrow> ChatContent" where
  "translateResponsesContentToChatContent (ContentString s) =
     (if s \<noteq> [] then ChatString s else ChatNull)"
| "translateResponsesContentToChatContent (ContentArray ps) = contentLoop [] ps"

text \<open>
  The content of a tool message: the string output, or the texts of the
  \<^verbatim>\<open>output_text\<close> parts joined with the empty separator.
\<close>

fun outputPartText :: "ResponsesContentPart \<Rightarrow> string" where
  "outputPartText (OutputText t) = t"
| "outputPartText p = []"

fun functionCallOutputContent :: "ResponsesContent \<Rightarrow> string" where
  "functionCallOutputContent (ContentString s) = s"
| "functionCallOutputContent (ContentArray ps) = concat (map outputPartText ps)"

text \<open>
  \<^verbatim>\<open>translateInputItemToMessage\<close>: the items with a \<^verbatim>\<open>role\<close> first, then the switch on
  \<^verbatim>\<open>type\<close>. \<open>None\<close> is \<^verbatim>\<open>null\<close>. No branch of the source returns an array.
\<close>

fun translateInputItemToMessage :: "ResponsesInputItem \<Rightarrow> Message option" where
  "translateInputItemToMessage (SystemMessage c) =
     Some \<lparr>role = ''system'', content = ChatString c, tool_calls = None, tool_call_id = None\<rparr>"
| "translateInputItemToMessage (DeveloperMessage c) =
     Some \<lparr>role = ''developer'', content = ChatString c, tool_calls = None, tool_call_id = None\<rparr>"
| "translateInputItemToMessage (UserMessage c) =
     Some \<lparr>role = ''user'', content = translateResponsesContentToChatContent c,
           tool_calls = None, tool_call_id = None\<rparr>"
| "translateInputItemToMessage (AssistantMessage c i) =
     Some \<lparr>role = ''assistant'', content = translateResponsesContentToChatContent c,
           tool_calls = None, tool_call_id = None\<rparr>"
| "translateInputItemToMessage (MessageInput RoleUser c i) =
     Some \<lparr>role = ''user'', content = translateResponsesContentToChatContent c,
           tool_calls = None, tool_call_id = None\<rparr>"
| "translateInputItemToMessage (MessageInput RoleAssistant c i) =
     Some \<lparr>role = ''assistant'', content = translateResponsesContentToChatContent c,
           tool_calls = None, tool_call_id = None\<rparr>"
| "translateInputItemToMessage (FunctionCall cid n a i) =
     Some \<lparr>role = ''assistant'', content = ChatNull,
           tool_calls = Some [\<lparr>tc_id = cid, tc_name = n, tc_arguments = a\<rparr>],
           tool_call_id = None\<rparr>"
| "translateInputItemToMessage (FunctionCallOutput cid out) =
     Some \<lparr>role = ''tool'', content = ChatString (functionCallOutputContent out),
           tool_calls = None, tool_call_id = Some cid\<rparr>"
| "translateInputItemToMessage (ItemReference i) = None"

definition translateResponsesToolToChatTool :: "ResponsesTool \<Rightarrow> Tool" where
  "translateResponsesToolToChatTool t =
     \<lparr>fn_name = tool_name t, fn_description = tool_description t,
      fn_parameters = tool_parameters t\<rparr>"

fun translateToolChoice :: "ResponsesToolChoice option \<Rightarrow> ChatToolChoice option" where
  "translateToolChoice None = None"
| "translateToolChoice (Some (ChoiceMode m)) = Some (ChatChoiceMode m)"
| "translateToolChoice (Some (ChoiceNamed n)) = Some (ChatChoiceFunction n)"

text \<open>
  \<^verbatim>\<open>translateResponsesToChatPayload\<close>. \<open>pushTranslated\<close> is the body of the loop over the
  input. The loop that follows it in the source only logs a warning and is left out.
\<close>

definition pushTranslated :: "Message list \<Rightarrow> ResponsesInputItem \<Rightarrow> Message list" where
  "pushTranslated msgs item =
     (case translateInputItemToMessage item of
        Some m \<Rightarrow> msgs @ [m]
      | None \<Rightarrow> msgs)"

definition translateResponsesToChatPayload :: "ResponsesPayload \<Rightarrow> ChatCompletionsPayload" where
  "translateResponsesToChatPayload responsesPayload =
     (let messages0 =
            (if truthy (instructions responsesPayload)
             then [\<lparr>role = ''system'', content = ChatString (the (instructions responsesPayload)),
                    tool_calls = None, tool_call_id = None\<rparr>]
             else []);
          msgs = foldl pushTranslated messages0 (input responsesPayload)
      in \<lparr>chat_model = model responsesPayload,
          messages = msgs,
          chat_temperature = temperature responsesPayload,
          chat_top_p = top_p responsesPayload,
          max_tokens = max_output_tokens responsesPayload,
          chat_stream = stream responsesPayload,
          chat_tools = map_option (map translateResponsesToolToChatTool) (tools responsesPayload),
          chat_tool_choice = translateToolChoice (tool_choice responsesPayload)\<rparr>)"

section \<open>Response translation\<close>

text \<open>
  A number inside a template literal is printed in decimal; the indexes are natural
  numbers.
\<close>

fun decimal :: "nat \<Rightarrow> string" where
  "decimal n =
     (if n < 10 then [char_of (48 + n)]
      else decimal (n div 10) @ [char_of (48 + n mod 10)])"

declare decimal.simps [simp del]

text \<open>
  \<^verbatim>\<open>ChatCompletionResponse\<close> (declared with the Chat-Completions client): the fields read
  by \<^verbatim>\<open>translateChatResponseToResponses\<close>, and the \<^verbatim>\<open>finish_reason\<close> of a choice, which
  it does not read.
\<close>

record ResponseMessage =
  msg_content :: "string option"
  msg_tool_calls :: "ToolCall list option"

record Choice =
  choice_index :: nat
  choice_message :: ResponseMessage
  choice_finish_reason :: string

record ChatUsage =
  prompt_tokens :: int
  completion_tokens :: int
  total_tokens :: int

record ChatCompletionResponse =
  chat_id :: string
  chat_created :: int
  chat_response_model :: string
  choices :: "Choice list"
  usage :: "ChatUsage option"

text \<open>
  \<^verbatim>\<open>ResponsesOutputItem\<close>: \<open>OutputMessage id content status\<close> (its role is always
  \<^verbatim>\<open>"assistant"\<close>) and \<open>OutputFunctionCall id call_id name arguments status\<close>.
\<close>

datatype ResponsesOutputItem =
    OutputMessage string "ResponsesContentPart list" "string option"
  | OutputFunctionCall string string string string "string option"

fun itemStatus :: "ResponsesOutputItem \<Rightarrow> string option" where
  "itemStatus (OutputMessage i c s) = s"
| "itemStatus (OutputFunctionCall i c n a s) = s"

record ResponsesUsage =
  input_tokens :: int
  output_tokens :: int
  usage_total_tokens :: "int option"

record ResponsesError =
  error_type :: string
  error_code :: string
  error_message :: string

record ResponsesResponse =
  response_id :: string
  created_at :: int
  response_model :: string
  response_output :: "ResponsesOutputItem list"
  response_usage :: "ResponsesUsage option"
  response_status :: "string option"
  response_error :: "ResponsesError option"

text \<open>
  \<^verbatim>\<open>translateChatResponseToResponses\<close>. \<open>pushToolCall\<close> and \<open>pushChoice\<close> are the bodies of
  the inner and the outer loop, each returning the \<^verbatim>\<open>output\<close> array after its pushes.
\<close>

definition pushToolCall :: "ResponsesOutputItem list \<Rightarrow> ToolCall \<Rightarrow> ResponsesOutputItem list" where
  "pushToolCall out toolCall =
     out @ [OutputFunctionCall (tc_id toolCall) (tc_id toolCall) (tc_name toolCall)
              (tc_arguments toolCall) (Some ''completed'')]"

definition pushChoice ::
  "string \<Rightarrow> ResponsesOutputItem list \<Rightarrow> Choice \<Rightarrow> ResponsesOutputItem list" where
  "pushChoice rid out choice =
     (let message = choice_message choice;
          out1 =
            (if truthy (msg_content message)
             then out @ [OutputMessage (''msg_'' @ rid @ ''_'' @ decimal (choice_index choice))
                           [OutputText (the (msg_content message))] (Some ''completed'')]
             else out)
      in case msg_tool_calls message of
           None \<Rightarrow> out1
         | Some tcs \<Rightarrow> if length tcs > 0 then foldl pushToolCall out1 tcs else out1)"

definition translateUsage :: "ChatUsage \<Rightarrow> ResponsesUsage" where
  "translateUsage u =
     \<lparr>input_tokens = prompt_tokens u, output_tokens = completion_tokens u,
      usage_total_tokens = Some (total_tokens u)\<rparr>"

definition translateChatResponseToResponses :: "ChatCompletionResponse \<Rightarrow> ResponsesResponse" where
  "translateChatResponseToResponses chatResponse =
     \<lparr>response_id = chat_id chatResponse,
      created_at = chat_created chatResponse,
      response_model = chat_response_model chatResponse,
      response_output = foldl (pushChoice (chat_id chatResponse)) [] (choices chatResponse),
      response_usage = map_option translateUsage (usage chatResponse),
      response_status = Some ''completed'',
      response_error = None\<rparr>"

section \<open>Streaming translation\<close>

text \<open>The chunk type in the signature of \<^verbatim>\<open>translateChatChunkToResponsesEvents\<close>.\<close>

record FunctionDelta =
  delta_name :: "string option"
  delta_arguments :: "string option"

record ToolCallDelta =
  tcd_index :: nat
  tcd_id :: "string option"
  tcd_function :: "FunctionDelta option"

record Delta =
  delta_content :: "string option"
  delta_role :: "string option"
  delta_tool_calls :: "ToolCallDelta list option"

record ChunkChoice =
  cc_index :: nat
  cc_delta :: Delta
  cc_finish_reason :: "string option"

record ChatChunk =
  chunk_id :: string
  chunk_model :: string
  chunk_created :: int
  chunk_choices :: "ChunkChoice list"

text \<open>The state parameter; \<^verbatim>\<open>Map<number, string>\<close> is a partial map.\<close>

record StreamState =
  responseId :: string
  sentCreated :: bool
  currentItemIndex :: nat
  toolCallIds :: "nat \<rightharpoonup> string"

text \<open>
  The five shapes of event the function pushes:
  \<open>Created id created_at model\<close>, \<open>OutputTextDelta item_id output_index delta\<close>,
  \<open>OutputItemAdded output_index item\<close>,
  \<open>FunctionCallArgumentsDelta item_id output_index delta\<close>, \<open>Completed id status\<close>.
\<close>

datatype OutboundEvent =
    Created string int string
  | OutputTextDelta string nat string
  | OutputItemAdded nat ResponsesOutputItem
  | FunctionCallArgumentsDelta string nat string
  | Completed string string

text \<open>
  The id used by the events of one tool-call fragment:
  \<^verbatim>\<open>toolCallId || `call_${tc.index}`\<close> with
  \<^verbatim>\<open>toolCallId = state.toolCallIds.get(tc.index) || tc.id\<close>.
\<close>

definition fragmentId :: "StreamState \<Rightarrow> ToolCallDelta \<Rightarrow> string" where
  "fragmentId st tc =
     (let toolCallId = jsOr (toolCallIds st (tcd_index tc)) (tcd_id tc)
      in if truthy toolCallId then the toolCallId else ''call_'' @ decimal (tcd_index tc))"

text \<open>\<^verbatim>\<open>tc.function?.name\<close> and \<^verbatim>\<open>tc.function?.arguments\<close>\<close>

definition functionName :: "ToolCallDelta \<Rightarrow> string option" where
  "functionName tc = (case tcd_function tc of None \<Rightarrow> None | Some f \<Rightarrow> delta_name f)"

definition functionArguments :: "ToolCallDelta \<Rightarrow> string option" where
  "functionArguments tc = (case tcd_function tc of None \<Rightarrow> None | Some f \<Rightarrow> delta_arguments f)"

text \<open>
  Body of the loop over \<^verbatim>\<open>delta.tool_calls\<close>: the state and the \<^verbatim>\<open>events\<close> array before
  the fragment, and after it.
\<close>

definition toolCallStep ::
  "StreamState \<times> OutboundEvent list \<Rightarrow> ToolCallDelta \<Rightarrow> StreamState \<times> OutboundEvent list" where
  "toolCallStep acc tc =
     (let st = fst acc; events = snd acc;
          tid = fragmentId st tc;
          st1 = (if truthy (tcd_id tc)
                 then st\<lparr>toolCallIds := (toolCallIds st)(tcd_index tc \<mapsto> the (tcd_id tc))\<rparr>
                 else st);
          events1 = (if truthy (functionName tc)
                     then events @ [OutputItemAdded (tcd_index tc)
                            (OutputFunctionCall tid tid (the (functionName tc)) [] None)]
                     else events);
          events2 = (if truthy (functionArguments tc)
                     then events1 @ [FunctionCallArgumentsDelta tid (tcd_index tc)
                            (the (functionArguments tc))]
                     else events1)
      in (st1, events2))"

text \<open>Body of the loop over \<^verbatim>\<open>chunk.choices\<close>.\<close>

definition choiceStep ::
  "ChatChunk \<Rightarrow> StreamState \<times> OutboundEvent list \<Rightarrow> ChunkChoice
     \<Rightarrow> StreamState \<times> OutboundEvent list" where
  "choiceStep chunk acc choice =
     (let st = fst acc; events = snd acc;
          delta = cc_delta choice;
          events1 = (if truthy (delta_content delta)
                     then events @ [OutputTextDelta
                            (''msg_'' @ chunk_id chunk @ ''_'' @ decimal (cc_index choice))
                            (cc_index choice) (the (delta_content delta))]
                     else events);
          acc2 = (case delta_tool_calls delta of
                    None \<Rightarrow> (st, events1)
                  | Some tcs \<Rightarrow> foldl toolCallStep (st, events1) tcs);
          events3 = (if truthy (cc_finish_reason choice)
                     then snd acc2 @ [Completed (chunk_id chunk) ''completed'']
                     else snd acc2)
      in (fst acc2, events3))"

text \<open>
  \<^verbatim>\<open>translateChatChunkToResponsesEvents\<close>: the state after the call and the events
  returned.
\<close>

definition translateChatChunkToResponsesEvents ::
  "ChatChunk \<Rightarrow> StreamState \<Rightarrow> StreamState \<times> OutboundEvent list" where
  "translateChatChunkToResponsesEvents chunk st =
     (let acc0 = (if \<not> sentCreated st
                  then (st\<lparr>sentCreated := True, responseId := chunk_id chunk\<rparr>,
                        [Created (chunk_id chunk) (chunk_created chunk) (chunk_model chunk)])
                  else (st, []))
      in foldl (choiceStep chunk) acc0 (chunk_choices chunk))"

text \<open>
  Feeding a sequence of chunks through one state, as the loop of the streaming branch
  does: the state at the end and all events in the order they were returned.
\<close>

fun feedChunks :: "StreamState \<Rightarrow> ChatChunk list \<Rightarrow> StreamState \<times> OutboundEvent list" where
  "feedChunks st [] = (st, [])"
| "feedChunks st (chunk # rest) =
     (let r = translateChatChunkToResponsesEvents chunk st;
          r' = feedChunks (fst r) rest
      in (fst r', snd r @ snd r'))"

text \<open>The state literal created at the start of the streaming branch.\<close>

definition streamState :: StreamState where
  "streamState = \<lparr>responseId = [], sentCreated = False, currentItemIndex = 0,
                  toolCallIds = Map.empty\<rparr>"

section \<open>The upstream client (services/copilot/create-responses)\<close>

text \<open>
  An error value is either an \<^verbatim>\<open>HTTPError\<close>, built as
  \<^verbatim>\<open>new HTTPError(message, response, body)\<close> and read through
  \<^verbatim>\<open>error.response.status\<close>, or any other thrown error with its message:
  \<open>HTTPError message status body\<close>, \<open>OtherError message\<close>.
\<close>

datatype Error =
    HTTPError string nat string
  | OtherError string

text \<open>A server-sent event as \<^verbatim>\<open>fetch-event-stream\<close> yields it.\<close>

record SSEMessage =
  sse_data :: "string option"
  sse_event :: "string option"
  sse_id :: "string option"

text \<open>
  What \<^verbatim>\<open>createResponses\<close> hands to \<^verbatim>\<open>fetch\<close> beyond the fixed URL and method: the vision
  flag given to \<^verbatim>\<open>copilotHeaders\<close>, the \<^verbatim>\<open>X-Initiator\<close> header and the payload that is
  serialised as the body. What it reads from the reply: the status, the text of the body,
  the decoded body (decoding may throw) and the events of the body.
\<close>

record FetchRequest =
  req_vision :: bool
  req_initiator :: string
  req_payload :: ResponsesPayload

record FetchResponse =
  fetch_status :: nat
  fetch_text :: string
  fetch_json :: "Error + ResponsesResponse"
  fetch_events :: "SSEMessage list"

datatype ResponsesResult =
    ResponsesObject ResponsesResponse
  | ResponsesStream "SSEMessage list"

text \<open>
  The result of \<^verbatim>\<open>createChatCompletions\<close>, which lives in another module: a decoded
  \<^verbatim>\<open>ChatCompletionResponse\<close> or the events of a stream.
\<close>

datatype ChatResult =
    ChatObject ChatCompletionResponse
  | ChatStream "SSEMessage list"

text \<open>
  An entry of \<^verbatim>\<open>state.models.data\<close>: \<^verbatim>\<open>id\<close>,
  \<^verbatim>\<open>capabilities.limits.max_output_tokens\<close> and \<^verbatim>\<open>supported_endpoints\<close>.
\<close>

record Model =
  model_id :: string
  model_max_output_tokens :: "int option"
  supported_endpoints :: "string list option"

text \<open>
  Everything the handler reaches outside its own module: \<^verbatim>\<open>checkRateLimit\<close> (which may
  throw), \<^verbatim>\<open>JSON.parse\<close> on the request body, \<^verbatim>\<open>state.models?.data\<close>,
  \<^verbatim>\<open>state.copilotToken\<close>, \<^verbatim>\<open>fetch\<close>, \<^verbatim>\<open>createChatCompletions\<close>, and \<^verbatim>\<open>JSON.parse\<close>
  on the data of a stream event, where \<open>None\<close> is a thrown exception and the result is a
  chunk of the type that \<^verbatim>\<open>translateChatChunkToResponsesEvents\<close> declares.
\<close>

record Env =
  checkRateLimit :: "Error option"
  parseBody :: "string \<Rightarrow> ResponsesPayload option"
  models :: "Model list option"
  copilotToken :: "string option"
  fetch :: "FetchRequest \<Rightarrow> Error + FetchResponse"
  createChatCompletions :: "ChatCompletionsPayload \<Rightarrow> Error + ChatResult"
  parseChunk :: "string \<Rightarrow> ChatChunk option"

fun hasImagePart :: "ResponsesContent \<Rightarrow> bool" where
  "hasImagePart (ContentString s) = False"
| "hasImagePart (ContentArray ps) =
     list_ex (\<lambda>c. case c of InputImage u d \<Rightarrow> True | _ \<Rightarrow> False) ps"

fun hasVisionContent :: "ResponsesInputItem \<Rightarrow> bool" where
  "hasVisionContent (UserMessage c) = hasImagePart c"
| "hasVisionContent (AssistantMessage c i) = hasImagePart c"
| "hasVisionContent (MessageInput r c i) = hasImagePart c"
| "hasVisionContent item = False"

fun isAgentInput :: "ResponsesInputItem \<Rightarrow> bool" where
  "isAgentInput (AssistantMessage c i) = True"
| "isAgentInput (MessageInput RoleAssistant c i) = True"
| "isAgentInput (FunctionCall cid n a i) = True"
| "isAgentInput (FunctionCallOutput cid out) = True"
| "isAgentInput item = False"

text \<open>\<^verbatim>\<open>response.ok\<close>: the status is in the range 200 to 299.\<close>

definition responseOk :: "FetchResponse \<Rightarrow> bool" where
  "responseOk r = (200 \<le> fetch_status r \<and> fetch_status r \<le> 299)"

definition createResponses :: "Env \<Rightarrow> ResponsesPayload \<Rightarrow> Error + ResponsesResult" where
  "createResponses env payload =
     (if \<not> truthy (copilotToken env) then Inl (OtherError ''Copilot token not found'')
      else
        let hasVision = list_ex hasVisionContent (input payload);
            isAgentCall = list_ex isAgentInput (input payload)
        in case fetch env \<lparr>req_vision = hasVision,
                            req_initiator = (if isAgentCall then ''agent'' else ''user''),
                            req_payload = payload\<rparr> of
             Inl e \<Rightarrow> Inl e
           | Inr response \<Rightarrow>
               if \<not> responseOk response
               then Inl (HTTPError ''Failed to create responses'' (fetch_status response)
                          (fetch_text response))
               else if stream payload = Some True
               then Inr (ResponsesStream (fetch_events response))
               else (case fetch_json response of
                       Inl e \<Rightarrow> Inl e
                     | Inr r \<Rightarrow> Inr (ResponsesObject r)))"

section \<open>The handler (routes/responses/handler)\<close>

fun shouldFallbackToChat :: "Error \<Rightarrow> bool \<Rightarrow> bool" where
  "shouldFallbackToChat error supportsChat =
     (if \<not> supportsChat then False
      else case error of
             OtherError m \<Rightarrow> False
           | HTTPError m status body \<Rightarrow> status = 400 \<or> status = 404 \<or> status = 422)"

declare shouldFallbackToChat.simps [simp del]

text \<open>
  The calls made to the two upstream entry points, in order, and what the handler
  answers: \<^verbatim>\<open>c.json(response)\<close>, the events of the primary stream written unchanged, the
  translated events written one by one, \<^verbatim>\<open>forwardError(c, error)\<close>, the reply 400 to a
  body that is not JSON, the reply 400 naming the model, or the exception of
  \<^verbatim>\<open>checkRateLimit\<close> leaving the handler.
\<close>

datatype UpstreamCall =
    CallResponses ResponsesPayload
  | CallChatCompletions ChatCompletionsPayload

datatype Reply =
    ReplyJson ResponsesResponse
  | ReplyStream "SSEMessage list"
  | ReplyEvents "OutboundEvent list"
  | ForwardError Error
  | InvalidJsonBody
  | UnsupportedModel string
  | Thrown Error

text \<open>
  \<^verbatim>\<open>state.models?.data.find((model) => model.id === payload.model)\<close> and the two
  flags computed from \<^verbatim>\<open>selectedModel?.supported_endpoints\<close>.
\<close>

definition selectedModel :: "Env \<Rightarrow> ResponsesPayload \<Rightarrow> Model option" where
  "selectedModel env payload =
     (case models env of
        None \<Rightarrow> None
      | Some ms \<Rightarrow> find (\<lambda>m. model_id m = model payload) ms)"

definition endpoints :: "Env \<Rightarrow> ResponsesPayload \<Rightarrow> string list option" where
  "endpoints env payload =
     (case selectedModel env payload of None \<Rightarrow> None | Some m \<Rightarrow> supported_endpoints m)"

definition supportsResponses :: "Env \<Rightarrow> ResponsesPayload \<Rightarrow> bool" where
  "supportsResponses env payload =
     (case endpoints env payload of None \<Rightarrow> True | Some es \<Rightarrow> ''/responses'' \<in> set es)"

definition supportsChatCompletions :: "Env \<Rightarrow> ResponsesPayload \<Rightarrow> bool" where
  "supportsChatCompletions env payload =
     (case endpoints env payload of None \<Rightarrow> True | Some es \<Rightarrow> ''/chat/completions'' \<in> set es)"

text \<open>
  The payload after the orphan filter and after a missing \<^verbatim>\<open>max_output_tokens\<close> is
  filled from the selected model.
\<close>

definition normalizePayload :: "Env \<Rightarrow> ResponsesPayload \<Rightarrow> ResponsesPayload" where
  "normalizePayload env payload0 =
     (let payload1 = payload0\<lparr>input := filterOrphans (input payload0)\<rparr>
      in if max_output_tokens payload1 = None
         then payload1\<lparr>max_output_tokens :=
                (case selectedModel env payload1 of
                   None \<Rightarrow> None
                 | Some m \<Rightarrow> model_max_output_tokens m)\<rparr>
         else payload1)"

text \<open>
  Body of the loop over the events of the fallback stream: an event with data other than
  \<^verbatim>\<open>[DONE]\<close> is parsed and translated, and its events are written; data that does not
  parse is skipped.
\<close>

definition streamStep ::
  "Env \<Rightarrow> StreamState \<times> OutboundEvent list \<Rightarrow> SSEMessage \<Rightarrow> StreamState \<times> OutboundEvent list" where
  "streamStep env acc chunk =
     (let data = sse_data chunk
      in if truthy data \<and> the data \<noteq> ''[DONE]''
         then (case parseChunk env (the data) of
                 None \<Rightarrow> acc
               | Some parsed \<Rightarrow>
                   let r = translateChatChunkToResponsesEvents parsed (fst acc)
                   in (fst r, snd acc @ snd r))
         else acc)"

text \<open>
  The block guarded by \<^verbatim>\<open>supportsChatCompletions && lastError\<close>, with the calls made
  before it.
\<close>

definition fallbackToChat ::
  "Env \<Rightarrow> UpstreamCall list \<Rightarrow> ResponsesPayload \<Rightarrow> UpstreamCall list \<times> Reply" where
  "fallbackToChat env calls payload =
     (let chatPayload = translateResponsesToChatPayload payload;
          calls' = calls @ [CallChatCompletions chatPayload]
      in case createChatCompletions env chatPayload of
           Inl error \<Rightarrow> (calls', ForwardError error)
         | Inr (ChatObject chatResponse) \<Rightarrow>
             (calls', ReplyJson (translateChatResponseToResponses chatResponse))
         | Inr (ChatStream chatResponse) \<Rightarrow>
             (calls', ReplyEvents (snd (foldl (streamStep env) (streamState, []) chatResponse))))"

text \<open>
  The part of the handler after the primary attempt: \<open>lastError\<close> is \<open>None\<close> when the
  primary attempt was not made.
\<close>

definition afterPrimary ::
  "Env \<Rightarrow> UpstreamCall list \<Rightarrow> ResponsesPayload \<Rightarrow> bool \<Rightarrow> Error option
     \<Rightarrow> UpstreamCall list \<times> Reply" where
  "afterPrimary env calls payload supportsChat lastError =
     (if supportsChat \<and> lastError \<noteq> None then fallbackToChat env calls payload
      else case lastError of
             Some e \<Rightarrow> (calls, ForwardError e)
           | None \<Rightarrow> (calls, UnsupportedModel (model payload)))"

definition handleResponses :: "Env \<Rightarrow> string \<Rightarrow> UpstreamCall list \<times> Reply" where
  "handleResponses env rawBody =
     (case checkRateLimit env of
        Some e \<Rightarrow> ([], Thrown e)
      | None \<Rightarrow>
     (case parseBody env rawBody of
        None \<Rightarrow> ([], InvalidJsonBody)
      | Some payload0 \<Rightarrow>
          let payload = normalizePayload env payload0;
              supportsR = supportsResponses env payload;
              supportsChat = supportsChatCompletions env payload
          in if supportsR
             then (case createResponses env payload of
                     Inr (ResponsesObject response) \<Rightarrow>
                       ([CallResponses payload], ReplyJson response)
                   | Inr (ResponsesStream response) \<Rightarrow>
                       ([CallResponses payload], ReplyStream response)
                   | Inl error \<Rightarrow>
                       if \<not> shouldFallbackToChat error supportsChat
                       then ([CallResponses payload], ForwardError error)
                       else afterPrimary env [CallResponses payload] payload supportsChat
                              (Some error))
             else afterPrimary env [] payload supportsChat None))"

section \<open>The translations as the specification words them\<close>

text \<open>
  The definitions of this section do not come from the source. Each one writes down, as a
  function, what the specification says about a translation; the theorems compare them
  with the functions above.
\<close>

fun isTextPart :: "ResponsesContentPart \<Rightarrow> bool" where
  "isTextPart (InputText t) = True"
| "isTextPart (OutputText t) = True"
| "isTextPart p = False"

fun partText :: "ResponsesContentPart \<Rightarrow> string" where
  "partText (InputText t) = t"
| "partText (OutputText t) = t"
| "partText p = []"

text \<open>The image parts of a content array, in order, as image-url parts.\<close>

fun imagePart :: "ResponsesContentPart \<Rightarrow> ContentPart list" where
  "imagePart (InputImage url d) = [ImageUrlPart url d]"
| "imagePart p = []"

definition imageParts :: "ResponsesContentPart list \<Rightarrow> ContentPart list" where
  "imageParts ps = concat (map imagePart ps)"

text \<open>
  Content-part reduction: the first text part, if any, gives the scalar content; without
  a text part the image parts give the list, and nothing gives the no-content marker.
\<close>

definition reducedContent :: "ResponsesContentPart list \<Rightarrow> ChatContent" where
  "reducedContent ps =
     (case find isTextPart ps of
        Some p \<Rightarrow> ChatString (partText p)
      | None \<Rightarrow> if imageParts ps = [] then ChatNull else ChatParts (imageParts ps))"

text \<open>
  The output items of one choice: at most one message item, present when the content is
  not empty, then one function-call item per tool call, all of them completed.
\<close>

definition messageItems :: "string \<Rightarrow> Choice \<Rightarrow> ResponsesOutputItem list" where
  "messageItems rid choice =
     (case msg_content (choice_message choice) of
        None \<Rightarrow> []
      | Some c \<Rightarrow>
          if c = [] then []
          else [OutputMessage (''msg_'' @ rid @ ''_'' @ decimal (choice_index choice))
                  [OutputText c] (Some ''completed'')])"

definition functionCallItem :: "ToolCall \<Rightarrow> ResponsesOutputItem" where
  "functionCallItem t =
     OutputFunctionCall (tc_id t) (tc_id t) (tc_name t) (tc_arguments t) (Some ''completed'')"

definition functionCallItems :: "Choice \<Rightarrow> ResponsesOutputItem list" where
  "functionCallItems choice =
     (case msg_tool_calls (choice_message choice) of
        None \<Rightarrow> []
      | Some tcs \<Rightarrow> map functionCallItem tcs)"

definition choiceItems :: "string \<Rightarrow> Choice \<Rightarrow> ResponsesOutputItem list" where
  "choiceItems rid choice = messageItems rid choice @ functionCallItems choice"

section \<open>Observations on event sequences\<close>

text \<open>
  These definitions, too, are not from the source: they name what the statements about
  the streaming translation observe.
\<close>

fun isCreated :: "OutboundEvent \<Rightarrow> bool" where
  "isCreated (Created i c m) = True"
| "isCreated e = False"

text \<open>
  The (output index, id) pairs an event of a tool call carries: the \<^verbatim>\<open>id\<close> and the
  \<^verbatim>\<open>call_id\<close> of an added function-call item, the \<^verbatim>\<open>item_id\<close> of an arguments delta.
\<close>

fun eventCallIds :: "OutboundEvent \<Rightarrow> (nat \<times> string) list" where
  "eventCallIds (OutputItemAdded k (OutputFunctionCall i c n a s)) = [(k, i), (k, c)]"
| "eventCallIds (FunctionCallArgumentsDelta i k d) = [(k, i)]"
| "eventCallIds e = []"

text \<open>A \<^verbatim>\<open>response.completed\<close> event has the status \<^verbatim>\<open>completed\<close>.\<close>

fun completedOk :: "OutboundEvent \<Rightarrow> bool" where
  "completedOk (Completed i s) = (s = ''completed'')"
| "completedOk e = True"

text \<open>The tool-call fragments of a choice, of a chunk and of a chunk sequence, in order.\<close>

definition choiceFragments :: "ChunkChoice \<Rightarrow> ToolCallDelta list" where
  "choiceFragments choice =
     (case delta_tool_calls (cc_delta choice) of None \<Rightarrow> [] | Some tcs \<Rightarrow> tcs)"

definition chunkFragments :: "ChatChunk \<Rightarrow> ToolCallDelta list" where
  "chunkFragments chunk = concat (map choiceFragments (chunk_choices chunk))"

definition fragments :: "ChatChunk list \<Rightarrow> ToolCallDelta list" where
  "fragments chunks = concat (map chunkFragments chunks)"

text \<open>
  Two states agree on the fields that \<^verbatim>\<open>translateChatChunkToResponsesEvents\<close> reads.
\<close>

definition sameView :: "StreamState \<Rightarrow> StreamState \<Rightarrow> bool" where
  "sameView s t = (sentCreated s = sentCreated t \<and> toolCallIds s = toolCallIds t)"

text \<open>
  The chunks that the loop of the streaming branch hands to the translation: the events
  with data other than \<^verbatim>\<open>[DONE]\<close> that parse.
\<close>

definition parsedChunk :: "Env \<Rightarrow> SSEMessage \<Rightarrow> ChatChunk option" where
  "parsedChunk env chunk =
     (if truthy (sse_data chunk) \<and> the (sse_data chunk) \<noteq> ''[DONE]''
      then parseChunk env (the (sse_data chunk)) else None)"

definition parsedChunks :: "Env \<Rightarrow> SSEMessage list \<Rightarrow> ChatChunk list" where
  "parsedChunks env chunks = List.map_filter (parsedChunk env) chunks"

text \<open>
  \<open>carriesOnly k x evs\<close>: every tool-call event of \<open>evs\<close> with output index \<open>k\<close> carries the
  id \<open>x\<close>. \<open>consistentFragment k x tc\<close>: a fragment for index \<open>k\<close> carries no id, or the id
  \<open>x\<close>.
\<close>

definition carriesOnly :: "nat \<Rightarrow> string \<Rightarrow> OutboundEvent list \<Rightarrow> bool" where
  "carriesOnly k x evs =
     list_all (\<lambda>p. fst p = k \<longrightarrow> snd p = x) (concat (map eventCallIds evs))"

definition consistentFragment :: "nat \<Rightarrow> string \<Rightarrow> ToolCallDelta \<Rightarrow> bool" where
  "consistentFragment k x tc =
     (tcd_index tc = k \<longrightarrow> \<not> truthy (tcd_id tc) \<or> tcd_id tc = Some x)"

section \<open>Example requests and environments\<close>

text \<open>
  The request of the scenario, \<^verbatim>\<open>{model: "gpt-4o", input: [{role: "user", content: "hi"}]}\<close>,
  the upstream reply \<^verbatim>\<open>choices: [{message: {content: "hello"}}]\<close>, and an environment
  in which the model \<^verbatim>\<open>gpt-4o\<close> has the given \<^verbatim>\<open>supported_endpoints\<close>, the
  \<^verbatim>\<open>/responses\<close> endpoint answers with the given status and
  \<^verbatim>\<open>createChatCompletions\<close> returns that reply.
\<close>

definition hiPayload :: ResponsesPayload where
  "hiPayload =
     \<lparr>model = ''gpt-4o'', input = [UserMessage (ContentString ''hi'')],
      instructions = None, max_output_tokens = None, temperature = None, top_p = None,
      stream = None, tools = None, tool_choice = None, metadata = None, store = None,
      previous_response_id = None\<rparr>"

definition helloResponse :: ChatCompletionResponse where
  "helloResponse =
     \<lparr>chat_id = ''c1'', chat_created = 1, chat_response_model = ''gpt-4o'',
      choices = [\<lparr>choice_index = 0,
                  choice_message = \<lparr>msg_content = Some ''hello'', msg_tool_calls = None\<rparr>,
                  choice_finish_reason = ''length''\<rparr>],
      usage = None\<rparr>"

definition exampleEnv :: "string list option \<Rightarrow> nat \<Rightarrow> Env" where
  "exampleEnv eps status =
     \<lparr>checkRateLimit = None,
      parseBody = (\<lambda>rawBody. Some hiPayload),
      models = Some [\<lparr>model_id = ''gpt-4o'', model_max_output_tokens = Some 4096,
                      supported_endpoints = eps\<rparr>],
      copilotToken = Some ''token'',
      fetch = (\<lambda>request. Inr \<lparr>fetch_status = status, fetch_text = ''refused'',
                               fetch_json = Inl (OtherError ''no body''),
                               fetch_events = []\<rparr>),
      createChatCompletions = (\<lambda>chatPayload. Inr (ChatObject helloResponse)),
      parseChunk = (\<lambda>data. None)\<rparr>"

text \<open>The request after the handler has normalised it in that environment.\<close>

definition hiNormalized :: ResponsesPayload where
  "hiNormalized = hiPayload\<lparr>max_output_tokens := Some 4096\<rparr>"

section \<open>Lemmas on the orphan filter\<close>

lemma foldl_addFunctionCallId:
  "foldl addFunctionCallId S xs = S \<union> foldl addFunctionCallId {} xs"
proof (induction xs arbitrary: S)
  case Nil
  show ?case by simp
next
  case (Cons x xs)
  have "foldl addFunctionCallId S (x # xs) = addFunctionCallId S x \<union> foldl addFunctionCallId {} xs"
    using Cons.IH [of "addFunctionCallId S x"] by simp
  moreover have "foldl addFunctionCallId {} (x # xs)
      = addFunctionCallId {} x \<union> foldl addFunctionCallId {} xs"
    using Cons.IH [of "addFunctionCallId {} x"] by simp
  moreover have "addFunctionCallId S x = S \<union> addFunctionCallId {} x"
    by (cases x) simp_all
  ultimately show ?case by auto
qed

lemma functionCallIds_Nil: "functionCallIds [] = {}"
  by (simp add: functionCallIds_def)

lemma functionCallIds_Cons:
  "functionCallIds (x # xs) = addFunctionCallId {} x \<union> functionCallIds xs"
  unfolding functionCallIds_def
  using foldl_addFunctionCallId [of "addFunctionCallId {} x" xs] by simp

lemma mem_functionCallIds:
  "cid \<in> functionCallIds xs \<longleftrightarrow> (\<exists>n a i. FunctionCall cid n a i \<in> set xs)"
proof (induction xs)
  case Nil
  show ?case by (simp add: functionCallIds_Nil)
next
  case (Cons x xs)
  show ?case
    by (cases x) (auto simp: functionCallIds_Cons Cons.IH)
qed

lemma functionCallIds_filter:
  "functionCallIds (filter (keepItem ids) xs) = functionCallIds xs"
proof (induction xs)
  case Nil
  show ?case by simp
next
  case (Cons x xs)
  show ?case
    by (cases x) (simp_all add: functionCallIds_Cons Cons.IH)
qed

lemma foldl_pushOrphan:
  "foldl (pushOrphan ids) acc xs = acc @ foldl (pushOrphan ids) [] xs"
proof (induction xs arbitrary: acc)
  case Nil
  show ?case by simp
next
  case (Cons x xs)
  have "foldl (pushOrphan ids) acc (x # xs)
      = pushOrphan ids acc x @ foldl (pushOrphan ids) [] xs"
    using Cons.IH [of "pushOrphan ids acc x"] by simp
  moreover have "foldl (pushOrphan ids) [] (x # xs)
      = pushOrphan ids [] x @ foldl (pushOrphan ids) [] xs"
    using Cons.IH [of "pushOrphan ids [] x"] by simp
  moreover have "pushOrphan ids acc x = acc @ pushOrphan ids [] x"
    by (cases x) simp_all
  ultimately show ?case by simp
qed

lemma orphanOutputs_Cons:
  "orphanOutputs ids (x # xs) = pushOrphan ids [] x @ orphanOutputs ids xs"
  unfolding orphanOutputs_def
  using foldl_pushOrphan [of ids "pushOrphan ids [] x" xs] by simp

lemma orphanOutputs_empty_iff:
  "orphanOutputs ids xs = [] \<longleftrightarrow> list_all (keepItem ids) xs"
proof (induction xs)
  case Nil
  show ?case by (simp add: orphanOutputs_def)
next
  case (Cons x xs)
  show ?case
    by (cases x) (simp_all add: orphanOutputs_Cons Cons.IH)
qed

text \<open>The conditional filtering and the unconditional one give the same list.\<close>

lemma filterOrphans_eq_filter:
  "filterOrphans xs = filter (keepItem (functionCallIds xs)) xs"
proof (cases "orphanOutputs (functionCallIds xs) xs = []")
  case True
  then have "list_all (keepItem (functionCallIds xs)) xs"
    by (simp add: orphanOutputs_empty_iff)
  then have "filter (keepItem (functionCallIds xs)) xs = xs"
    by (simp add: list_all_iff)
  with True show ?thesis
    by (simp add: filterOrphans_def)
next
  case False
  then show ?thesis
    by (simp add: filterOrphans_def)
qed

lemma outputsHaveCalls_filterOrphans: "outputsHaveCalls (filterOrphans xs)"
  by (simp add: outputsHaveCalls_def filterOrphans_eq_filter functionCallIds_filter
      list_all_iff)

lemma keepItem_not_output: "\<not> isFunctionCallOutput x \<Longrightarrow> keepItem ids x"
  by (cases x) simp_all

lemma filterOrphans_keeps_others:
  "filter (\<lambda>x. \<not> isFunctionCallOutput x) (filterOrphans xs)
     = filter (\<lambda>x. \<not> isFunctionCallOutput x) xs"
proof -
  have "filter (\<lambda>x. \<not> isFunctionCallOutput x) (filter (keepItem ids) ys)
      = filter (\<lambda>x. \<not> isFunctionCallOutput x) ys" for ids ys
    by (induction ys) (auto simp: keepItem_not_output)
  then show ?thesis
    by (simp add: filterOrphans_eq_filter)
qed

lemma filterOrphans_fixed:
  "outputsHaveCalls xs \<Longrightarrow> filterOrphans xs = xs"
  by (simp add: outputsHaveCalls_def filterOrphans_eq_filter list_all_iff)


lemma keepItem_iff:
  "keepItem ids x \<longleftrightarrow> (\<forall>cid out. x = FunctionCallOutput cid out \<longrightarrow> cid \<in> ids)"
  by (cases x) simp_all

lemma outputsHaveCalls_iff:
  "outputsHaveCalls xs \<longleftrightarrow>
     (\<forall>cid out. FunctionCallOutput cid out \<in> set xs
        \<longrightarrow> (\<exists>n a i. FunctionCall cid n a i \<in> set xs))"
proof -
  have "outputsHaveCalls xs \<longleftrightarrow>
      (\<forall>x\<in>set xs. \<forall>cid out. x = FunctionCallOutput cid out \<longrightarrow> cid \<in> functionCallIds xs)"
    by (simp add: outputsHaveCalls_def list_all_iff keepItem_iff)
  also have "\<dots> \<longleftrightarrow> (\<forall>cid out. FunctionCallOutput cid out \<in> set xs
      \<longrightarrow> cid \<in> functionCallIds xs)"
    by blast
  finally show ?thesis
    by (simp add: mem_functionCallIds)
qed

lemma subseq_filterOrphans: "subseq (filterOrphans xs) xs"
  by (simp add: filterOrphans_eq_filter)

section \<open>Lemmas on the translations\<close>

lemma decimal_0: "decimal 0 = ''0''"
  by code_simp


lemma contentLoop_reduced:
  "contentLoop acc ps =
     (case find isTextPart ps of
        Some p \<Rightarrow> ChatString (partText p)
      | None \<Rightarrow> if acc @ imageParts ps = [] then ChatNull else ChatParts (acc @ imageParts ps))"
proof (induction ps arbitrary: acc)
  case Nil
  show ?case by (simp add: imageParts_def)
next
  case (Cons p ps)
  show ?case
  proof (cases p)
    case (InputText t)
    then show ?thesis by simp
  next
    case (InputImage url d)
    then show ?thesis
      using Cons.IH [of "acc @ [ImageUrlPart url d]"]
      by (simp add: imageParts_def split: option.splits)
  next
    case (InputFile u n d i)
    then show ?thesis
      using Cons.IH [of acc] by (simp add: imageParts_def split: option.splits)
  next
    case (OutputText t)
    then show ?thesis by simp
  qed
qed

lemma foldl_pushToolCall:
  "foldl pushToolCall out tcs = out @ map functionCallItem tcs"
  by (induction tcs arbitrary: out) (simp_all add: pushToolCall_def functionCallItem_def)

lemma truthy_iff: "truthy v \<longleftrightarrow> (\<exists>s. v = Some s \<and> s \<noteq> [])"
  by (cases v) simp_all

lemma pushChoice_append: "pushChoice rid out choice = out @ choiceItems rid choice"
proof -
  have msg: "(if truthy (msg_content (choice_message choice))
       then out @ [OutputMessage (''msg_'' @ rid @ ''_'' @ decimal (choice_index choice))
                     [OutputText (the (msg_content (choice_message choice)))]
                     (Some ''completed'')]
       else out) = out @ messageItems rid choice"
    by (cases "msg_content (choice_message choice)") (simp_all add: messageItems_def)
  show ?thesis
  proof (cases "msg_tool_calls (choice_message choice)")
    case None
    then show ?thesis
      using msg by (simp add: pushChoice_def choiceItems_def functionCallItems_def)
  next
    case (Some tcs)
    then show ?thesis
      using msg
      by (cases tcs)
        (simp_all add: pushChoice_def choiceItems_def functionCallItems_def foldl_pushToolCall
          del: foldl_Cons)
  qed
qed

lemma foldl_pushChoice:
  "foldl (pushChoice rid) out cs = out @ concat (map (choiceItems rid) cs)"
  by (induction cs arbitrary: out) (simp_all add: pushChoice_append)

lemma response_output_eq:
  "response_output (translateChatResponseToResponses r)
     = concat (map (choiceItems (chat_id r)) (choices r))"
  by (simp add: translateChatResponseToResponses_def foldl_pushChoice)

lemma choiceItems_completed:
  "list_all (\<lambda>it. itemStatus it = Some ''completed'') (choiceItems rid choice)"
proof -
  have "list_all (\<lambda>it. itemStatus it = Some ''completed'') (messageItems rid choice)"
    by (simp add: messageItems_def split: option.splits)
  moreover have "list_all (\<lambda>it. itemStatus it = Some ''completed'') (functionCallItems choice)"
    by (auto simp: functionCallItems_def functionCallItem_def list_all_iff split: option.splits)
  ultimately show ?thesis
    by (simp add: choiceItems_def)
qed

lemma response_output_completed:
  "list_all (\<lambda>it. itemStatus it = Some ''completed'')
     (response_output (translateChatResponseToResponses r))"
proof -
  have "list_all (\<lambda>it. itemStatus it = Some ''completed'')
          (concat (map (choiceItems rid) cs))" for rid cs
    by (induction cs) (simp_all add: choiceItems_completed)
  then show ?thesis
    by (simp only: response_output_eq)
qed

lemma find_first_text:
  "list_all (\<lambda>q. \<not> isTextPart q) pre \<Longrightarrow> isTextPart p
     \<Longrightarrow> find isTextPart (pre @ p # post) = Some p"
  by (induction pre) simp_all

lemma find_no_text:
  "list_all (\<lambda>q. \<not> isTextPart q) ps \<Longrightarrow> find isTextPart ps = None"
  by (induction ps) simp_all

lemma translateContent_array:
  "translateResponsesContentToChatContent (ContentArray ps) = reducedContent ps"
  using contentLoop_reduced [of "[]" ps] by (simp add: reducedContent_def split: option.splits)

lemma messageItems_length: "length (messageItems rid c) \<le> 1"
  by (simp add: messageItems_def split: option.splits)

lemma messageItems_nonempty:
  "messageItems rid c \<noteq> [] \<longleftrightarrow> truthy (msg_content (choice_message c))"
  by (cases "msg_content (choice_message c)") (simp_all add: messageItems_def)

section \<open>Lemmas on the streaming translation\<close>

lemma foldl_invariant:
  assumes "P a" and "\<And>b x. x \<in> set xs \<Longrightarrow> P b \<Longrightarrow> P (f b x)"
  shows "P (foldl f a xs)"
  using assms by (induction xs arbitrary: a) simp_all

lemma foldl_related:
  assumes "R a b" and "\<And>c d x. R c d \<Longrightarrow> R (f c x) (g d x)"
  shows "R (foldl f a xs) (foldl g b xs)"
  using assms by (induction xs arbitrary: a b) simp_all

subsection \<open>The events only grow\<close>

lemma toolCallStep_prefix: "prefix (snd acc) (snd (toolCallStep acc tc))"
  by (simp add: toolCallStep_def Let_def)

lemma foldl_toolCallStep_prefix: "prefix ev (snd (foldl toolCallStep (st, ev) tcs))"
proof -
  have "prefix ev (snd (foldl toolCallStep (st, ev) tcs))"
    by (rule foldl_invariant [where P = "\<lambda>a. prefix ev (snd a)"])
      (auto intro: prefix_order.trans toolCallStep_prefix)
  then show ?thesis .
qed

lemma choiceStep_prefix: "prefix (snd acc) (snd (choiceStep chunk acc choice))"
proof -
  let ?ev1 = "if truthy (delta_content (cc_delta choice))
      then snd acc @ [OutputTextDelta
             (''msg_'' @ chunk_id chunk @ ''_'' @ decimal (cc_index choice))
             (cc_index choice) (the (delta_content (cc_delta choice)))]
      else snd acc"
  have one: "prefix (snd acc) ?ev1" by simp
  have two: "prefix ?ev1 (snd (case delta_tool_calls (cc_delta choice) of
      None \<Rightarrow> (fst acc, ?ev1) | Some tcs \<Rightarrow> foldl toolCallStep (fst acc, ?ev1) tcs))"
    by (cases "delta_tool_calls (cc_delta choice)") (simp_all add: foldl_toolCallStep_prefix)
  have three: "prefix (snd a) (if truthy (cc_finish_reason choice)
      then snd a @ [Completed (chunk_id chunk) ''completed''] else snd a)" for a :: "StreamState \<times> OutboundEvent list"
    by simp
  from one two have "prefix (snd acc) (snd (case delta_tool_calls (cc_delta choice) of
      None \<Rightarrow> (fst acc, ?ev1) | Some tcs \<Rightarrow> foldl toolCallStep (fst acc, ?ev1) tcs))"
    by (rule prefix_order.trans)
  from this three show ?thesis
    unfolding choiceStep_def Let_def snd_conv by (rule prefix_order.trans)
qed

lemma foldl_choiceStep_prefix: "prefix ev (snd (foldl (choiceStep chunk) (st, ev) cs))"
  by (rule foldl_invariant [where P = "\<lambda>a. prefix ev (snd a)"])
    (auto intro: prefix_order.trans choiceStep_prefix)

subsection \<open>The created event and its latch\<close>

lemma toolCallStep_created:
  "sentCreated (fst (toolCallStep acc tc)) = sentCreated (fst acc)
   \<and> filter isCreated (snd (toolCallStep acc tc)) = filter isCreated (snd acc)"
  by (simp add: toolCallStep_def Let_def)

lemma foldl_toolCallStep_created:
  "sentCreated (fst (foldl toolCallStep acc tcs)) = sentCreated (fst acc)
   \<and> filter isCreated (snd (foldl toolCallStep acc tcs)) = filter isCreated (snd acc)"
  by (rule foldl_invariant [where P = "\<lambda>a. sentCreated (fst a) = sentCreated (fst acc)
        \<and> filter isCreated (snd a) = filter isCreated (snd acc)"])
    (simp_all add: toolCallStep_created)

lemma choiceStep_created:
  "sentCreated (fst (choiceStep chunk acc choice)) = sentCreated (fst acc)
   \<and> filter isCreated (snd (choiceStep chunk acc choice)) = filter isCreated (snd acc)"
  by (cases "delta_tool_calls (cc_delta choice)")
    (simp_all add: choiceStep_def Let_def foldl_toolCallStep_created)

lemma foldl_choiceStep_created:
  "sentCreated (fst (foldl (choiceStep chunk) acc cs)) = sentCreated (fst acc)
   \<and> filter isCreated (snd (foldl (choiceStep chunk) acc cs)) = filter isCreated (snd acc)"
  by (rule foldl_invariant [where P = "\<lambda>a. sentCreated (fst a) = sentCreated (fst acc)
        \<and> filter isCreated (snd a) = filter isCreated (snd acc)"])
    (simp_all add: choiceStep_created)

lemma translate_sets_latch:
  "sentCreated (fst (translateChatChunkToResponsesEvents chunk st))"
  by (simp add: translateChatChunkToResponsesEvents_def Let_def foldl_choiceStep_created)

lemma translate_created_latched:
  "sentCreated st \<Longrightarrow> filter isCreated (snd (translateChatChunkToResponsesEvents chunk st)) = []"
  by (simp add: translateChatChunkToResponsesEvents_def Let_def foldl_choiceStep_created)

lemma translate_created_first:
  assumes "\<not> sentCreated st"
  shows "\<exists>rest. snd (translateChatChunkToResponsesEvents chunk st)
           = Created (chunk_id chunk) (chunk_created chunk) (chunk_model chunk) # rest
         \<and> filter isCreated rest = []"
proof -
  let ?c = "Created (chunk_id chunk) (chunk_created chunk) (chunk_model chunk)"
  let ?st = "st\<lparr>sentCreated := True, responseId := chunk_id chunk\<rparr>"
  let ?r = "foldl (choiceStep chunk) (?st, [?c]) (chunk_choices chunk)"
  have run: "translateChatChunkToResponsesEvents chunk st = ?r"
    using assms by (simp add: translateChatChunkToResponsesEvents_def)
  have "prefix [?c] (snd ?r)"
    by (rule foldl_choiceStep_prefix)
  then obtain rest where rest: "snd ?r = ?c # rest"
    by (auto simp: prefix_def)
  have "filter isCreated (snd ?r) = [?c]"
    by (simp add: foldl_choiceStep_created)
  with rest have "filter isCreated rest = []" by simp
  with rest run show ?thesis by simp
qed

lemma feedChunks_latched:
  "sentCreated st \<Longrightarrow> filter isCreated (snd (feedChunks st cs)) = []
     \<and> sentCreated (fst (feedChunks st cs))"
proof (induction cs arbitrary: st)
  case Nil
  then show ?case by simp
next
  case (Cons c cs)
  have "sentCreated (fst (translateChatChunkToResponsesEvents c st))"
    by (rule translate_sets_latch)
  from Cons.IH [OF this] translate_created_latched [OF Cons.prems, of c]
  show ?case by (simp add: Let_def)
qed

lemma feedChunks_fresh:
  assumes "\<not> sentCreated st"
  shows "\<exists>rest. snd (feedChunks st (c # cs))
           = Created (chunk_id c) (chunk_created c) (chunk_model c) # rest
         \<and> filter isCreated rest = []"
proof -
  from translate_created_first [OF assms, of c]
  obtain rest where rest: "snd (translateChatChunkToResponsesEvents c st)
        = Created (chunk_id c) (chunk_created c) (chunk_model c) # rest"
      and none: "filter isCreated rest = []"
    by blast
  have "filter isCreated
      (snd (feedChunks (fst (translateChatChunkToResponsesEvents c st)) cs)) = []"
    using feedChunks_latched [OF translate_sets_latch] by blast
  with rest none show ?thesis
    by (simp add: Let_def)
qed

subsection \<open>The fields of the state that are read\<close>

lemma toolCallStep_view:
  assumes "sameView (fst a) (fst b)" and "snd a = snd b"
  shows "sameView (fst (toolCallStep a tc)) (fst (toolCallStep b tc))
         \<and> snd (toolCallStep a tc) = snd (toolCallStep b tc)"
  using assms by (simp add: toolCallStep_def Let_def sameView_def fragmentId_def)

lemma foldl_toolCallStep_view:
  assumes "sameView (fst a) (fst b)" and "snd a = snd b"
  shows "sameView (fst (foldl toolCallStep a tcs)) (fst (foldl toolCallStep b tcs))
         \<and> snd (foldl toolCallStep a tcs) = snd (foldl toolCallStep b tcs)"
  by (rule foldl_related
        [where R = "\<lambda>c d. sameView (fst c) (fst d) \<and> snd c = snd d"])
    (simp_all add: assms toolCallStep_view)

lemma choiceStep_view:
  assumes "sameView (fst a) (fst b)" and "snd a = snd b"
  shows "sameView (fst (choiceStep chunk a choice)) (fst (choiceStep chunk b choice))
         \<and> snd (choiceStep chunk a choice) = snd (choiceStep chunk b choice)"
proof (cases "delta_tool_calls (cc_delta choice)")
  case None
  with assms show ?thesis
    by (simp add: choiceStep_def Let_def)
next
  case (Some tcs)
  let ?ev = "\<lambda>c. if truthy (delta_content (cc_delta choice))
      then snd c @ [OutputTextDelta
             (''msg_'' @ chunk_id chunk @ ''_'' @ decimal (cc_index choice))
             (cc_index choice) (the (delta_content (cc_delta choice)))]
      else snd c"
  have "sameView (fst (foldl toolCallStep (fst a, ?ev a) tcs))
          (fst (foldl toolCallStep (fst b, ?ev b) tcs))
      \<and> snd (foldl toolCallStep (fst a, ?ev a) tcs)
          = snd (foldl toolCallStep (fst b, ?ev b) tcs)"
    by (rule foldl_toolCallStep_view) (simp_all add: assms)
  with Some show ?thesis
    by (simp add: choiceStep_def Let_def)
qed

lemma foldl_choiceStep_view:
  assumes "sameView (fst a) (fst b)" and "snd a = snd b"
  shows "sameView (fst (foldl (choiceStep chunk) a cs)) (fst (foldl (choiceStep chunk) b cs))
         \<and> snd (foldl (choiceStep chunk) a cs) = snd (foldl (choiceStep chunk) b cs)"
  by (rule foldl_related
        [where R = "\<lambda>c d. sameView (fst c) (fst d) \<and> snd c = snd d"])
    (simp_all add: assms choiceStep_view)

lemma translate_view:
  assumes "sameView s t"
  shows "sameView (fst (translateChatChunkToResponsesEvents chunk s))
           (fst (translateChatChunkToResponsesEvents chunk t))
         \<and> snd (translateChatChunkToResponsesEvents chunk s)
           = snd (translateChatChunkToResponsesEvents chunk t)"
  unfolding translateChatChunkToResponsesEvents_def Let_def
  by (rule foldl_choiceStep_view) (use assms in \<open>simp_all add: sameView_def\<close>)

lemma feedChunks_view:
  "sameView s t \<Longrightarrow> sameView (fst (feedChunks s cs)) (fst (feedChunks t cs))
     \<and> snd (feedChunks s cs) = snd (feedChunks t cs)"
proof (induction cs arbitrary: s t)
  case Nil
  then show ?case by simp
next
  case (Cons c cs)
  from translate_view [OF Cons.prems, of c]
  have step: "sameView (fst (translateChatChunkToResponsesEvents c s))
        (fst (translateChatChunkToResponsesEvents c t))"
    and evs: "snd (translateChatChunkToResponsesEvents c s)
        = snd (translateChatChunkToResponsesEvents c t)"
    by simp_all
  from Cons.IH [OF step] evs show ?case
    by (simp add: Let_def)
qed

subsection \<open>The status of completed events\<close>

lemma toolCallStep_completedOk:
  "list_all completedOk (snd acc) \<Longrightarrow> list_all completedOk (snd (toolCallStep acc tc))"
  by (simp add: toolCallStep_def Let_def)

lemma foldl_toolCallStep_completedOk:
  "list_all completedOk (snd acc) \<Longrightarrow> list_all completedOk (snd (foldl toolCallStep acc tcs))"
  by (rule foldl_invariant [where P = "\<lambda>a. list_all completedOk (snd a)"])
    (simp_all add: toolCallStep_completedOk)

lemma choiceStep_completedOk:
  "list_all completedOk (snd acc) \<Longrightarrow> list_all completedOk (snd (choiceStep chunk acc choice))"
  by (cases "delta_tool_calls (cc_delta choice)")
    (simp_all add: choiceStep_def Let_def foldl_toolCallStep_completedOk)

lemma translate_completedOk:
  "list_all completedOk (snd (translateChatChunkToResponsesEvents chunk st))"
  unfolding translateChatChunkToResponsesEvents_def Let_def
  by (rule foldl_invariant [where P = "\<lambda>a. list_all completedOk (snd a)"])
    (simp_all add: choiceStep_completedOk)

lemma completedOk_status:
  "list_all completedOk evs \<Longrightarrow> Completed i s \<in> set evs \<Longrightarrow> s = ''completed''"
  by (induction evs) auto

subsection \<open>The loop of the streaming branch\<close>

lemma streamLoop_feedChunks:
  "foldl (streamStep env) (st, ev) chunks
     = (fst (feedChunks st (parsedChunks env chunks)),
        ev @ snd (feedChunks st (parsedChunks env chunks)))"
proof (induction chunks arbitrary: st ev)
  case Nil
  show ?case by (simp add: parsedChunks_def map_filter_simps)
next
  case (Cons c cs)
  show ?case
  proof (cases "parsedChunk env c")
    case None
    then have "streamStep env (st, ev) c = (st, ev)"
      by (auto simp: streamStep_def parsedChunk_def Let_def split: if_splits)
    with None Cons.IH [of st ev] show ?thesis
      by (simp add: parsedChunks_def map_filter_simps)
  next
    case (Some parsed)
    then have "streamStep env (st, ev) c
        = (fst (translateChatChunkToResponsesEvents parsed st),
           ev @ snd (translateChatChunkToResponsesEvents parsed st))"
      by (auto simp: streamStep_def parsedChunk_def Let_def split: if_splits)
    with Some Cons.IH show ?thesis
      by (simp add: parsedChunks_def map_filter_simps Let_def)
  qed
qed

lemma feedChunks_completedOk: "list_all completedOk (snd (feedChunks st cs))"
  by (induction cs arbitrary: st) (simp_all add: Let_def translate_completedOk)

subsection \<open>The id of a tool call\<close>

lemma toolCallStep_store:
  "toolCallIds (fst (toolCallStep (st, ev) tc))
     = (if truthy (tcd_id tc) then (toolCallIds st)(tcd_index tc \<mapsto> the (tcd_id tc))
        else toolCallIds st)"
  by (simp add: toolCallStep_def Let_def)

lemma toolCallStep_ids:
  "\<exists>new. snd (toolCallStep (st, ev) tc) = ev @ new
     \<and> list_all (\<lambda>p. p = (tcd_index tc, fragmentId st tc)) (concat (map eventCallIds new))"
proof -
  let ?tid = "fragmentId st tc"
  let ?a = "if truthy (functionName tc)
      then [OutputItemAdded (tcd_index tc)
              (OutputFunctionCall ?tid ?tid (the (functionName tc)) [] None)]
      else []"
  let ?b = "if truthy (functionArguments tc)
      then [FunctionCallArgumentsDelta ?tid (tcd_index tc) (the (functionArguments tc))]
      else []"
  have "snd (toolCallStep (st, ev) tc) = ev @ (?a @ ?b)"
    by (simp add: toolCallStep_def Let_def)
  moreover have "list_all (\<lambda>p. p = (tcd_index tc, ?tid)) (concat (map eventCallIds (?a @ ?b)))"
    by simp
  ultimately show ?thesis by blast
qed

lemma fragmentId_stored:
  "truthy (toolCallIds st (tcd_index tc)) \<Longrightarrow>
     fragmentId st tc = the (toolCallIds st (tcd_index tc))"
  by (simp add: fragmentId_def jsOr_def)

lemma fragmentId_own:
  "\<not> truthy (toolCallIds st (tcd_index tc)) \<Longrightarrow> truthy (tcd_id tc) \<Longrightarrow>
     fragmentId st tc = the (tcd_id tc)"
  by (simp add: fragmentId_def jsOr_def)

lemma fragmentId_placeholder:
  "\<not> truthy (toolCallIds st (tcd_index tc)) \<Longrightarrow> \<not> truthy (tcd_id tc) \<Longrightarrow>
     fragmentId st tc = ''call_'' @ decimal (tcd_index tc)"
  by (simp add: fragmentId_def jsOr_def)

lemma carriesOnly_append:
  "carriesOnly k x (evs @ new) \<longleftrightarrow> carriesOnly k x evs \<and> carriesOnly k x new"
  by (simp add: carriesOnly_def)

lemma toolCallStep_stable:
  assumes stored: "toolCallIds (fst acc) k = Some x" and "x \<noteq> []"
    and evs: "carriesOnly k x (snd acc)"
    and frag: "consistentFragment k x tc"
  shows "toolCallIds (fst (toolCallStep acc tc)) k = Some x
         \<and> carriesOnly k x (snd (toolCallStep acc tc))"
proof -
  obtain st ev where acc: "acc = (st, ev)" by (cases acc)
  from toolCallStep_ids [of st ev tc]
  obtain new where new: "snd (toolCallStep (st, ev) tc) = ev @ new"
      and ids: "list_all (\<lambda>p. p = (tcd_index tc, fragmentId st tc))
                  (concat (map eventCallIds new))"
    by blast
  have "carriesOnly k x new"
  proof (cases "tcd_index tc = k")
    case True
    with stored acc \<open>x \<noteq> []\<close> have "fragmentId st tc = x"
      by (simp add: fragmentId_stored)
    with ids show ?thesis
      by (fastforce simp: carriesOnly_def list_all_iff)
  next
    case False
    with ids show ?thesis
      by (fastforce simp: carriesOnly_def list_all_iff)
  qed
  with evs acc new have "carriesOnly k x (snd (toolCallStep acc tc))"
    by (simp add: carriesOnly_append)
  moreover have "toolCallIds (fst (toolCallStep acc tc)) k = Some x"
    using stored frag acc
    by (auto simp: toolCallStep_store consistentFragment_def)
  ultimately show ?thesis by blast
qed

lemma foldl_toolCallStep_stable:
  assumes "toolCallIds (fst acc) k = Some x" and "x \<noteq> []"
    and "carriesOnly k x (snd acc)"
    and "list_all (consistentFragment k x) tcs"
  shows "toolCallIds (fst (foldl toolCallStep acc tcs)) k = Some x
         \<and> carriesOnly k x (snd (foldl toolCallStep acc tcs))"
proof (rule foldl_invariant
    [where P = "\<lambda>a. toolCallIds (fst a) k = Some x \<and> carriesOnly k x (snd a)"])
  show "toolCallIds (fst acc) k = Some x \<and> carriesOnly k x (snd acc)"
    using assms by simp
next
  fix b :: "StreamState \<times> OutboundEvent list" and tc
  assume "tc \<in> set tcs" and inv: "toolCallIds (fst b) k = Some x \<and> carriesOnly k x (snd b)"
  with assms(4) have "consistentFragment k x tc"
    by (simp add: list_all_iff)
  with inv assms(2) show "toolCallIds (fst (toolCallStep b tc)) k = Some x
      \<and> carriesOnly k x (snd (toolCallStep b tc))"
    by (intro toolCallStep_stable) simp_all
qed

lemma choiceStep_stable:
  assumes stored: "toolCallIds (fst acc) k = Some x" and ne: "x \<noteq> []"
    and evs: "carriesOnly k x (snd acc)"
    and frags: "list_all (consistentFragment k x) (choiceFragments choice)"
  shows "toolCallIds (fst (choiceStep chunk acc choice)) k = Some x
         \<and> carriesOnly k x (snd (choiceStep chunk acc choice))"
proof -
  let ?ev1 = "if truthy (delta_content (cc_delta choice))
      then snd acc @ [OutputTextDelta
             (''msg_'' @ chunk_id chunk @ ''_'' @ decimal (cc_index choice))
             (cc_index choice) (the (delta_content (cc_delta choice)))]
      else snd acc"
  let ?acc2 = "case delta_tool_calls (cc_delta choice) of
      None \<Rightarrow> (fst acc, ?ev1) | Some tcs \<Rightarrow> foldl toolCallStep (fst acc, ?ev1) tcs"
  have ev1: "carriesOnly k x ?ev1"
    using evs by (simp add: carriesOnly_def)
  have mid: "toolCallIds (fst ?acc2) k = Some x \<and> carriesOnly k x (snd ?acc2)"
  proof (cases "delta_tool_calls (cc_delta choice)")
    case None
    with stored ev1 show ?thesis by simp
  next
    case (Some tcs)
    with frags have "list_all (consistentFragment k x) tcs"
      by (simp add: choiceFragments_def)
    from foldl_toolCallStep_stable [of "(fst acc, ?ev1)" k x tcs] stored ne ev1 this Some
    show ?thesis by simp
  qed
  have "choiceStep chunk acc choice
      = (fst ?acc2, if truthy (cc_finish_reason choice)
           then snd ?acc2 @ [Completed (chunk_id chunk) ''completed''] else snd ?acc2)"
    by (simp add: choiceStep_def Let_def)
  with mid show ?thesis
    by (simp add: carriesOnly_def)
qed

lemma translate_stable:
  assumes stored: "toolCallIds st k = Some x" and ne: "x \<noteq> []"
    and frags: "list_all (consistentFragment k x) (chunkFragments chunk)"
  shows "toolCallIds (fst (translateChatChunkToResponsesEvents chunk st)) k = Some x
         \<and> carriesOnly k x (snd (translateChatChunkToResponsesEvents chunk st))"
  unfolding translateChatChunkToResponsesEvents_def Let_def
proof (rule foldl_invariant
    [where P = "\<lambda>a. toolCallIds (fst a) k = Some x \<and> carriesOnly k x (snd a)"])
  show "toolCallIds (fst (if \<not> sentCreated st
        then (st\<lparr>sentCreated := True, responseId := chunk_id chunk\<rparr>,
              [Created (chunk_id chunk) (chunk_created chunk) (chunk_model chunk)])
        else (st, []))) k = Some x
      \<and> carriesOnly k x (snd (if \<not> sentCreated st
        then (st\<lparr>sentCreated := True, responseId := chunk_id chunk\<rparr>,
              [Created (chunk_id chunk) (chunk_created chunk) (chunk_model chunk)])
        else (st, [])))"
    using stored by (simp add: carriesOnly_def)
next
  fix b :: "StreamState \<times> OutboundEvent list" and choice
  assume "choice \<in> set (chunk_choices chunk)"
    and "toolCallIds (fst b) k = Some x \<and> carriesOnly k x (snd b)"
  moreover from \<open>choice \<in> set (chunk_choices chunk)\<close> frags
  have "list_all (consistentFragment k x) (choiceFragments choice)"
    by (auto simp: chunkFragments_def list_all_iff)
  ultimately show "toolCallIds (fst (choiceStep chunk b choice)) k = Some x
      \<and> carriesOnly k x (snd (choiceStep chunk b choice))"
    using ne by (intro choiceStep_stable) simp_all
qed

lemma feedChunks_stable:
  "toolCallIds st k = Some x \<Longrightarrow> x \<noteq> [] \<Longrightarrow>
   list_all (consistentFragment k x) (fragments chunks) \<Longrightarrow>
     toolCallIds (fst (feedChunks st chunks)) k = Some x
     \<and> carriesOnly k x (snd (feedChunks st chunks))"
proof (induction chunks arbitrary: st)
  case Nil
  then show ?case by (simp add: carriesOnly_def)
next
  case (Cons c cs)
  from Cons.prems have here: "list_all (consistentFragment k x) (chunkFragments c)"
    and later: "list_all (consistentFragment k x) (fragments cs)"
    by (simp_all add: fragments_def)
  from translate_stable [OF Cons.prems(1) Cons.prems(2) here]
  have st1: "toolCallIds (fst (translateChatChunkToResponsesEvents c st)) k = Some x"
    and ev1: "carriesOnly k x (snd (translateChatChunkToResponsesEvents c st))"
    by simp_all
  from Cons.IH [OF st1 Cons.prems(2) later] ev1 show ?case
    by (simp add: Let_def carriesOnly_append)
qed

section \<open>Lemmas on the handler\<close>

lemma shouldFallbackToChat_iff:
  "shouldFallbackToChat error supportsChat
     \<longleftrightarrow> supportsChat \<and> (\<exists>m s b. error = HTTPError m s b \<and> s \<in> {400, 404, 422})"
  by (cases error) (auto simp: shouldFallbackToChat.simps)

lemma fst_fallbackToChat:
  "fst (fallbackToChat env calls payload)
     = calls @ [CallChatCompletions (translateResponsesToChatPayload payload)]"
  by (simp add: fallbackToChat_def Let_def split: sum.splits ChatResult.splits)

lemma handleResponses_primary_failed:
  assumes "checkRateLimit env = None"
    and "parseBody env rawBody = Some payload0"
    and "supportsResponses env (normalizePayload env payload0)"
    and "createResponses env (normalizePayload env payload0) = Inl error"
  shows "handleResponses env rawBody
     = (if shouldFallbackToChat error
            (supportsChatCompletions env (normalizePayload env payload0))
        then fallbackToChat env [CallResponses (normalizePayload env payload0)]
               (normalizePayload env payload0)
        else ([CallResponses (normalizePayload env payload0)], ForwardError error))"
  using assms
  by (cases "supportsChatCompletions env (normalizePayload env payload0)")
    (simp_all add: handleResponses_def afterPrimary_def Let_def shouldFallbackToChat.simps)

lemma handleResponses_primary_skipped:
  assumes "checkRateLimit env = None"
    and "parseBody env rawBody = Some payload0"
    and "\<not> supportsResponses env (normalizePayload env payload0)"
  shows "handleResponses env rawBody
     = ([], UnsupportedModel (model (normalizePayload env payload0)))"
  using assms by (simp add: handleResponses_def afterPrimary_def Let_def)

lemma fallbackToChat_json:
  assumes "snd (fallbackToChat env calls payload) = ReplyJson response"
  shows "response_status response = Some ''completed''
         \<and> list_all (\<lambda>it. itemStatus it = Some ''completed'') (response_output response)"
proof -
  from assms obtain r where "response = translateChatResponseToResponses r"
    by (auto simp: fallbackToChat_def Let_def split: sum.splits ChatResult.splits)
  then show ?thesis
    using response_output_completed [of r]
    by (simp add: translateChatResponseToResponses_def)
qed

lemma fallbackToChat_events:
  assumes "snd (fallbackToChat env calls payload) = ReplyEvents evs"
  shows "list_all completedOk evs"
proof -
  from assms obtain chunks
    where "evs = snd (foldl (streamStep env) (streamState, []) chunks)"
    by (auto simp: fallbackToChat_def Let_def split: sum.splits ChatResult.splits)
  then show ?thesis
    by (simp add: streamLoop_feedChunks feedChunks_completedOk)
qed

lemma normalize_hiPayload: "normalizePayload (exampleEnv eps status) hiPayload = hiNormalized"
  by (simp add: normalizePayload_def exampleEnv_def hiPayload_def hiNormalized_def
      selectedModel_def filterOrphans_def functionCallIds_def orphanOutputs_def Let_def)

lemma supports_example:
  "supportsResponses (exampleEnv eps status) hiNormalized
     = (case eps of None \<Rightarrow> True | Some es \<Rightarrow> ''/responses'' \<in> set es)"
  "supportsChatCompletions (exampleEnv eps status) hiNormalized
     = (case eps of None \<Rightarrow> True | Some es \<Rightarrow> ''/chat/completions'' \<in> set es)"
  by (simp_all add: supportsResponses_def supportsChatCompletions_def endpoints_def
      selectedModel_def exampleEnv_def hiNormalized_def hiPayload_def)

lemma createResponses_example:
  "\<not> (200 \<le> status \<and> status \<le> 299) \<Longrightarrow>
   createResponses (exampleEnv eps status) hiNormalized
     = Inl (HTTPError ''Failed to create responses'' status ''refused'')"
  by (simp add: createResponses_def exampleEnv_def responseOk_def Let_def)

lemma translate_hi_messages:
  "messages (translateResponsesToChatPayload hiNormalized)
     = [\<lparr>role = ''user'', content = ChatString ''hi'', tool_calls = None,
         tool_call_id = None\<rparr>]"
  by (simp add: translateResponsesToChatPayload_def hiNormalized_def hiPayload_def
      pushTranslated_def Let_def)

lemma translate_helloResponse:
  "translateChatResponseToResponses helloResponse
     = \<lparr>response_id = ''c1'', created_at = 1, response_model = ''gpt-4o'',
        response_output = [OutputMessage ''msg_c1_0'' [OutputText ''hello'']
                             (Some ''completed'')],
        response_usage = None, response_status = Some ''completed'',
        response_error = None\<rparr>"
  by (simp add: translateChatResponseToResponses_def helloResponse_def pushChoice_def
      Let_def decimal_0)

lemma fallbackToChat_example:
  "fallbackToChat (exampleEnv eps status) calls hiNormalized
     = (calls @ [CallChatCompletions (translateResponsesToChatPayload hiNormalized)],
        ReplyJson (translateChatResponseToResponses helloResponse))"
  by (simp add: fallbackToChat_def exampleEnv_def Let_def)

section \<open>Claims on the orphan filter\<close>

text \<open>
  C2, as the code has it. After the orphan-filtering pass of \<^verbatim>\<open>handleResponses\<close>, every
  surviving \<^verbatim>\<open>function_call_output\<close> item has its \<^verbatim>\<open>call_id\<close> on some
  \<^verbatim>\<open>function_call\<close> item of the resulting sequence (at any position, not necessarily an
  earlier one); the result is a subsequence of the input, so the relative order of the
  survivors is preserved; and the items other than \<^verbatim>\<open>function_call_output\<close> are exactly
  those of the input, in the same order, so none of them is removed.
\<close>

theorem filterOrphans_survivors:
  "(\<forall>cid out. FunctionCallOutput cid out \<in> set (filterOrphans xs)
      \<longrightarrow> (\<exists>n a i. FunctionCall cid n a i \<in> set (filterOrphans xs)))
   \<and> subseq (filterOrphans xs) xs
   \<and> filter (\<lambda>x. \<not> isFunctionCallOutput x) (filterOrphans xs)
       = filter (\<lambda>x. \<not> isFunctionCallOutput x) xs"
proof -
  have "outputsHaveCalls (filterOrphans xs)"
    by (rule outputsHaveCalls_filterOrphans)
  then have "\<forall>cid out. FunctionCallOutput cid out \<in> set (filterOrphans xs)
      \<longrightarrow> (\<exists>n a i. FunctionCall cid n a i \<in> set (filterOrphans xs))"
    by (simp only: outputsHaveCalls_iff)
  then show ?thesis
    using subseq_filterOrphans [of xs] filterOrphans_keeps_others [of xs] by blast
qed

text \<open>
  The theorem at an input with one orphan output, one call and its output: the orphan
  is dropped, and the surviving output \<^verbatim>\<open>c1\<close> has its call in the result.
\<close>

theorem filterOrphans_survivors_witness:
  "filterOrphans
     [UserMessage (ContentString ''hi''),
      FunctionCallOutput ''c9'' (ContentString ''lost''),
      FunctionCall ''c1'' ''f'' ''{}'' None,
      FunctionCallOutput ''c1'' (ContentString ''ok'')]
   = [UserMessage (ContentString ''hi''),
      FunctionCall ''c1'' ''f'' ''{}'' None,
      FunctionCallOutput ''c1'' (ContentString ''ok'')]
   \<and> FunctionCallOutput ''c1'' (ContentString ''ok'') \<in> set (filterOrphans
        [UserMessage (ContentString ''hi''),
         FunctionCallOutput ''c9'' (ContentString ''lost''),
         FunctionCall ''c1'' ''f'' ''{}'' None,
         FunctionCallOutput ''c1'' (ContentString ''ok'')])
   \<and> (\<exists>n a i. FunctionCall ''c1'' n a i \<in> set (filterOrphans
        [UserMessage (ContentString ''hi''),
         FunctionCallOutput ''c9'' (ContentString ''lost''),
         FunctionCall ''c1'' ''f'' ''{}'' None,
         FunctionCallOutput ''c1'' (ContentString ''ok'')]))"
proof -
  let ?xs = "[UserMessage (ContentString ''hi''),
      FunctionCallOutput ''c9'' (ContentString ''lost''),
      FunctionCall ''c1'' ''f'' ''{}'' None,
      FunctionCallOutput ''c1'' (ContentString ''ok'')]"
  have run: "filterOrphans ?xs
      = [UserMessage (ContentString ''hi''),
         FunctionCall ''c1'' ''f'' ''{}'' None,
         FunctionCallOutput ''c1'' (ContentString ''ok'')]"
    by (simp add: filterOrphans_def functionCallIds_def orphanOutputs_def)
  have survives: "FunctionCallOutput ''c1'' (ContentString ''ok'') \<in> set (filterOrphans ?xs)"
    by (simp add: run)
  from filterOrphans_survivors [of ?xs] survives
  have "\<exists>n a i. FunctionCall ''c1'' n a i \<in> set (filterOrphans ?xs)"
    by blast
  with run survives show ?thesis by blast
qed

text \<open>
  C2 as stated fails: an output placed before its call survives the filter, at the head
  of the result, where no \<^verbatim>\<open>function_call\<close> precedes it.
\<close>

theorem filterOrphans_earlier_counterexample:
  "filterOrphans
     [FunctionCallOutput ''c1'' (ContentString ''ok''), FunctionCall ''c1'' ''f'' ''{}'' None]
   = [FunctionCallOutput ''c1'' (ContentString ''ok''), FunctionCall ''c1'' ''f'' ''{}'' None]
   \<and> \<not> outputsFollowCalls {} (filterOrphans
     [FunctionCallOutput ''c1'' (ContentString ''ok''), FunctionCall ''c1'' ''f'' ''{}'' None])"
  by (simp add: filterOrphans_def functionCallIds_def orphanOutputs_def)

text \<open>
  C10. The orphan filter is idempotent: the filtered sequence has the same set of
  \<^verbatim>\<open>function_call\<close> ids as the input, filtering it again changes nothing, and an input
  in which every \<^verbatim>\<open>function_call_output\<close> has a \<^verbatim>\<open>function_call\<close> with its \<^verbatim>\<open>call_id\<close>
  is returned unchanged.
\<close>

theorem filterOrphans_idempotent:
  "functionCallIds (filterOrphans xs) = functionCallIds xs
   \<and> filterOrphans (filterOrphans xs) = filterOrphans xs
   \<and> ((\<forall>cid out. FunctionCallOutput cid out \<in> set xs
          \<longrightarrow> (\<exists>n a i. FunctionCall cid n a i \<in> set xs))
        \<longrightarrow> filterOrphans xs = xs)"
proof -
  have ids: "functionCallIds (filterOrphans xs) = functionCallIds xs"
    by (simp add: filterOrphans_eq_filter functionCallIds_filter)
  have twice: "filterOrphans (filterOrphans xs) = filterOrphans xs"
    by (rule filterOrphans_fixed) (rule outputsHaveCalls_filterOrphans)
  have same: "filterOrphans xs = xs"
    if "\<forall>cid out. FunctionCallOutput cid out \<in> set xs
          \<longrightarrow> (\<exists>n a i. FunctionCall cid n a i \<in> set xs)"
    using that by (intro filterOrphans_fixed) (simp only: outputsHaveCalls_iff)
  from ids twice same show ?thesis by blast
qed

text \<open>
  The theorem at an input without orphans (the hypothesis of its last part holds there)
  and at an input with one.
\<close>

theorem filterOrphans_idempotent_witness:
  "outputsHaveCalls [FunctionCall ''c1'' ''f'' ''{}'' None,
                     FunctionCallOutput ''c1'' (ContentString ''ok'')]
   \<and> filterOrphans [FunctionCall ''c1'' ''f'' ''{}'' None,
                    FunctionCallOutput ''c1'' (ContentString ''ok'')]
       = [FunctionCall ''c1'' ''f'' ''{}'' None,
          FunctionCallOutput ''c1'' (ContentString ''ok'')]
   \<and> filterOrphans (filterOrphans [FunctionCallOutput ''c9'' (ContentString ''lost''),
                                   SystemMessage ''s''])
       = [SystemMessage ''s'']"
proof -
  let ?ok = "[FunctionCall ''c1'' ''f'' ''{}'' None,
              FunctionCallOutput ''c1'' (ContentString ''ok'')]"
  let ?bad = "[FunctionCallOutput ''c9'' (ContentString ''lost''), SystemMessage ''s'']"
  have exec: "outputsHaveCalls ?ok"
    by (simp add: outputsHaveCalls_def functionCallIds_def)
  have hyp: "\<forall>cid out. FunctionCallOutput cid out \<in> set ?ok
      \<longrightarrow> (\<exists>n a i. FunctionCall cid n a i \<in> set ?ok)"
    by simp
  have once: "filterOrphans ?bad = [SystemMessage ''s'']"
    by (simp add: filterOrphans_def functionCallIds_def orphanOutputs_def)
  from filterOrphans_idempotent [of ?ok] hyp
  have "filterOrphans ?ok = ?ok" by blast
  moreover from filterOrphans_idempotent [of ?bad]
  have "filterOrphans (filterOrphans ?bad) = [SystemMessage ''s'']"
    by (simp add: once)
  ultimately show ?thesis using exec by blast
qed

section \<open>Claims on the request and response translations\<close>

text \<open>
  C7. \<^verbatim>\<open>translateResponsesContentToChatContent\<close>: a string content is kept, except the
  empty string, which becomes \<^verbatim>\<open>null\<close>; a content array is reduced as the specification
  says. In an array whose first text part (\<^verbatim>\<open>input_text\<close> or \<^verbatim>\<open>output_text\<close>) is \<open>p\<close>,
  the text of \<open>p\<close> is the scalar content, whatever precedes and follows it; in an array
  without a text part the \<^verbatim>\<open>input_image\<close> parts are projected in order and every other
  part is dropped, and when no part is produced the result is \<^verbatim>\<open>null\<close>, which is not the
  empty string.
\<close>

theorem translateContent_reduction:
  "translateResponsesContentToChatContent (ContentString s)
     = (if s = [] then ChatNull else ChatString s)
   \<and> translateResponsesContentToChatContent (ContentArray ps) = reducedContent ps
   \<and> (list_all (\<lambda>q. \<not> isTextPart q) pre \<and> isTextPart p
        \<longrightarrow> translateResponsesContentToChatContent (ContentArray (pre @ p # post))
              = ChatString (partText p))
   \<and> (list_all (\<lambda>q. \<not> isTextPart q) ps
        \<longrightarrow> translateResponsesContentToChatContent (ContentArray ps)
              = (if imageParts ps = [] then ChatNull else ChatParts (imageParts ps)))
   \<and> ChatNull \<noteq> ChatString []"
proof -
  have first: "translateResponsesContentToChatContent (ContentArray (pre @ p # post))
      = ChatString (partText p)"
    if "list_all (\<lambda>q. \<not> isTextPart q) pre" and "isTextPart p"
    using find_first_text [OF that, of post]
    by (simp only: translateContent_array reducedContent_def option.case)
  have none: "translateResponsesContentToChatContent (ContentArray ps)
      = (if imageParts ps = [] then ChatNull else ChatParts (imageParts ps))"
    if "list_all (\<lambda>q. \<not> isTextPart q) ps"
    using find_no_text [OF that]
    by (simp only: translateContent_array reducedContent_def option.case)
  have str: "translateResponsesContentToChatContent (ContentString s)
      = (if s = [] then ChatNull else ChatString s)"
    by simp
  from str first none show ?thesis
    by (simp only: translateContent_array) simp
qed

text \<open>
  The theorem at four contents: an image and two texts, a file and two images, a lone
  file, and the empty string.
\<close>

theorem translateContent_reduction_witness:
  "translateResponsesContentToChatContent
     (ContentArray [InputImage ''u'' None, InputText ''a'', OutputText ''b''])
     = ChatString ''a''
   \<and> translateResponsesContentToChatContent
     (ContentArray [InputFile None (Some ''f.pdf'') None None,
                    InputImage ''u'' (Some ''low''), InputImage ''v'' None])
     = ChatParts [ImageUrlPart ''u'' (Some ''low''), ImageUrlPart ''v'' None]
   \<and> translateResponsesContentToChatContent
     (ContentArray [InputFile None (Some ''f.pdf'') None None])
     = ChatNull
   \<and> translateResponsesContentToChatContent (ContentString []) = ChatNull"
proof -
  have a: "translateResponsesContentToChatContent
      (ContentArray ([InputImage ''u'' None] @ InputText ''a'' # [OutputText ''b'']))
      = ChatString ''a''"
    using translateContent_reduction
      [of _ _ "[InputImage ''u'' None]" "InputText ''a''" "[OutputText ''b'']"]
    by simp
  have b: "translateResponsesContentToChatContent
      (ContentArray [InputFile None (Some ''f.pdf'') None None,
                     InputImage ''u'' (Some ''low''), InputImage ''v'' None])
      = ChatParts [ImageUrlPart ''u'' (Some ''low''), ImageUrlPart ''v'' None]"
    using translateContent_reduction
      [of _ "[InputFile None (Some ''f.pdf'') None None,
              InputImage ''u'' (Some ''low''), InputImage ''v'' None]"]
    by (simp add: imageParts_def)
  have c: "translateResponsesContentToChatContent
      (ContentArray [InputFile None (Some ''f.pdf'') None None]) = ChatNull"
    using translateContent_reduction [of _ "[InputFile None (Some ''f.pdf'') None None]"]
    by (simp add: imageParts_def)
  have d: "translateResponsesContentToChatContent (ContentString []) = ChatNull"
    using translateContent_reduction [of "[]"] by simp
  from a b c d show ?thesis by simp
qed

text \<open>
  C4. \<^verbatim>\<open>translateChatResponseToResponses\<close>: the output is, choice after choice, the
  message items of the choice followed by its function-call items. A choice has at most
  one message item, and has one exactly when its content is not empty (neither \<^verbatim>\<open>null\<close>
  nor the empty string); it has one function-call item per tool call, in order; every
  item has the status \<^verbatim>\<open>completed\<close>. The usage is absent when the upstream one is, and
  otherwise carries \<^verbatim>\<open>prompt_tokens\<close> as \<^verbatim>\<open>input_tokens\<close>, \<^verbatim>\<open>completion_tokens\<close> as
  \<^verbatim>\<open>output_tokens\<close> and \<^verbatim>\<open>total_tokens\<close> as \<^verbatim>\<open>total_tokens\<close>. A response with one
  choice that has a text and one tool call gives the message item and then the
  function-call item.
\<close>

theorem translateChatResponse_output:
  "response_output (translateChatResponseToResponses r)
     = concat (map (\<lambda>c. messageItems (chat_id r) c @ functionCallItems c) (choices r))
   \<and> length (messageItems rid c) \<le> 1
   \<and> (messageItems rid c \<noteq> [] \<longleftrightarrow> truthy (msg_content (choice_message c)))
   \<and> (msg_tool_calls (choice_message c) = Some tcs
        \<longrightarrow> functionCallItems c = map functionCallItem tcs)
   \<and> (msg_tool_calls (choice_message c) = None \<longrightarrow> functionCallItems c = [])
   \<and> list_all (\<lambda>it. itemStatus it = Some ''completed'')
        (response_output (translateChatResponseToResponses r))
   \<and> (usage r = None \<longrightarrow> response_usage (translateChatResponseToResponses r) = None)
   \<and> (usage r = Some u
        \<longrightarrow> response_usage (translateChatResponseToResponses r)
              = Some \<lparr>input_tokens = prompt_tokens u, output_tokens = completion_tokens u,
                      usage_total_tokens = Some (total_tokens u)\<rparr>)
   \<and> (choices r = [c] \<and> msg_content (choice_message c) = Some txt \<and> txt \<noteq> []
        \<and> msg_tool_calls (choice_message c) = Some [t]
        \<longrightarrow> response_output (translateChatResponseToResponses r)
              = [OutputMessage (''msg_'' @ chat_id r @ ''_'' @ decimal (choice_index c))
                   [OutputText txt] (Some ''completed''),
                 OutputFunctionCall (tc_id t) (tc_id t) (tc_name t) (tc_arguments t)
                   (Some ''completed'')])"
proof -
  have out: "response_output (translateChatResponseToResponses r)
      = concat (map (\<lambda>c. messageItems (chat_id r) c @ functionCallItems c) (choices r))"
    by (simp add: response_output_eq choiceItems_def [abs_def])
  have calls: "functionCallItems c = map functionCallItem tcs"
    if "msg_tool_calls (choice_message c) = Some tcs"
    using that by (simp add: functionCallItems_def)
  have nocalls: "functionCallItems c = []" if "msg_tool_calls (choice_message c) = None"
    using that by (simp add: functionCallItems_def)
  have nousage: "response_usage (translateChatResponseToResponses r) = None"
    if "usage r = None"
    using that by (simp add: translateChatResponseToResponses_def)
  have someusage: "response_usage (translateChatResponseToResponses r)
      = Some \<lparr>input_tokens = prompt_tokens u, output_tokens = completion_tokens u,
              usage_total_tokens = Some (total_tokens u)\<rparr>"
    if "usage r = Some u"
    using that by (simp add: translateChatResponseToResponses_def translateUsage_def)
  have scenario: "response_output (translateChatResponseToResponses r)
      = [OutputMessage (''msg_'' @ chat_id r @ ''_'' @ decimal (choice_index c))
           [OutputText txt] (Some ''completed''),
         OutputFunctionCall (tc_id t) (tc_id t) (tc_name t) (tc_arguments t)
           (Some ''completed'')]"
    if "choices r = [c]" and "msg_content (choice_message c) = Some txt" and "txt \<noteq> []"
      and "msg_tool_calls (choice_message c) = Some [t]"
    using that
    by (simp add: out messageItems_def functionCallItems_def functionCallItem_def)
  from out messageItems_length [of rid c] messageItems_nonempty [of rid c] calls nocalls
    response_output_completed [of r] nousage someusage scenario
  show ?thesis by blast
qed

text \<open>
  The theorem at a response with one choice, the text \<^verbatim>\<open>hello\<close>, one tool call and a
  usage: each hypothesis holds there.
\<close>

theorem translateChatResponse_output_witness:
  "response_output (translateChatResponseToResponses
     \<lparr>chat_id = ''r1'', chat_created = 7, chat_response_model = ''m'',
      choices = [\<lparr>choice_index = 0,
                  choice_message = \<lparr>msg_content = Some ''hello'',
                    msg_tool_calls = Some [\<lparr>tc_id = ''call_1'', tc_name = ''foo'',
                                             tc_arguments = ''{}''\<rparr>]\<rparr>,
                  choice_finish_reason = ''tool_calls''\<rparr>],
      usage = Some \<lparr>prompt_tokens = 3, completion_tokens = 4, total_tokens = 7\<rparr>\<rparr>)
     = [OutputMessage ''msg_r1_0'' [OutputText ''hello''] (Some ''completed''),
        OutputFunctionCall ''call_1'' ''call_1'' ''foo'' ''{}'' (Some ''completed'')]
   \<and> response_usage (translateChatResponseToResponses
     \<lparr>chat_id = ''r1'', chat_created = 7, chat_response_model = ''m'',
      choices = [\<lparr>choice_index = 0,
                  choice_message = \<lparr>msg_content = Some ''hello'',
                    msg_tool_calls = Some [\<lparr>tc_id = ''call_1'', tc_name = ''foo'',
                                             tc_arguments = ''{}''\<rparr>]\<rparr>,
                  choice_finish_reason = ''tool_calls''\<rparr>],
      usage = Some \<lparr>prompt_tokens = 3, completion_tokens = 4, total_tokens = 7\<rparr>\<rparr>)
     = Some \<lparr>input_tokens = 3, output_tokens = 4, usage_total_tokens = Some 7\<rparr>"
proof -
  let ?t = "\<lparr>tc_id = ''call_1'', tc_name = ''foo'', tc_arguments = ''{}''\<rparr>"
  let ?c = "\<lparr>choice_index = 0,
             choice_message = \<lparr>msg_content = Some ''hello'', msg_tool_calls = Some [?t]\<rparr>,
             choice_finish_reason = ''tool_calls''\<rparr>"
  let ?u = "\<lparr>prompt_tokens = 3, completion_tokens = 4, total_tokens = 7\<rparr>"
  let ?r = "\<lparr>chat_id = ''r1'', chat_created = 7, chat_response_model = ''m'',
             choices = [?c], usage = Some ?u\<rparr>"
  have hyps: "choices ?r = [?c] \<and> msg_content (choice_message ?c) = Some ''hello''
      \<and> ''hello'' \<noteq> [] \<and> msg_tool_calls (choice_message ?c) = Some [?t]
      \<and> usage ?r = Some ?u"
    by simp
  from translateChatResponse_output [of ?r _ ?c _ ?u "''hello''" ?t] hyps
  have "response_output (translateChatResponseToResponses ?r)
      = [OutputMessage (''msg_'' @ chat_id ?r @ ''_'' @ decimal (choice_index ?c))
           [OutputText ''hello''] (Some ''completed''),
         OutputFunctionCall (tc_id ?t) (tc_id ?t) (tc_name ?t) (tc_arguments ?t)
           (Some ''completed'')]
      \<and> response_usage (translateChatResponseToResponses ?r)
         = Some \<lparr>input_tokens = prompt_tokens ?u, output_tokens = completion_tokens ?u,
                 usage_total_tokens = Some (total_tokens ?u)\<rparr>"
    by blast
  then show ?thesis
    by (simp add: decimal_0)
qed

section \<open>Claims on the streaming translation\<close>

text \<open>
  C5. A state whose latch \<^verbatim>\<open>sentCreated\<close> is not set, as the state created at the start
  of the streaming branch, is fed a sequence of chunks that has a first chunk. Then
  exactly one \<^verbatim>\<open>response.created\<close> event is emitted in total, whatever the number of
  chunks: it is the first event of all, it carries the id, the timestamp and the model of
  the first chunk, and no later event is a \<^verbatim>\<open>response.created\<close> event. The latch is set
  afterwards, and a chunk translated with the latch set emits no such event. The events
  that the streaming branch of the handler writes are those of feeding the fresh state the
  chunks that parse.
\<close>

theorem created_exactly_once:
  "\<not> sentCreated streamState
   \<and> (\<not> sentCreated st \<and> chunks \<noteq> []
        \<longrightarrow> length (filter isCreated (snd (feedChunks st chunks))) = 1
          \<and> (\<exists>rest. snd (feedChunks st chunks)
                = Created (chunk_id (hd chunks)) (chunk_created (hd chunks))
                    (chunk_model (hd chunks)) # rest
              \<and> filter isCreated rest = [])
          \<and> sentCreated (fst (feedChunks st chunks)))
   \<and> (sentCreated st
        \<longrightarrow> filter isCreated (snd (translateChatChunkToResponsesEvents chunk st)) = [])
   \<and> snd (foldl (streamStep env) (streamState, []) events)
       = snd (feedChunks streamState (parsedChunks env events))"
proof -
  have fresh: "\<not> sentCreated streamState"
    by (simp add: streamState_def)
  have loop: "snd (foldl (streamStep env) (streamState, []) events)
      = snd (feedChunks streamState (parsedChunks env events))"
    by (simp add: streamLoop_feedChunks)
  have once: "length (filter isCreated (snd (feedChunks st chunks))) = 1
      \<and> (\<exists>rest. snd (feedChunks st chunks)
            = Created (chunk_id (hd chunks)) (chunk_created (hd chunks))
                (chunk_model (hd chunks)) # rest
          \<and> filter isCreated rest = [])
      \<and> sentCreated (fst (feedChunks st chunks))"
    if unset: "\<not> sentCreated st" and nonempty: "chunks \<noteq> []"
  proof -
    from nonempty obtain c cs where chunks: "chunks = c # cs"
      by (cases chunks) auto
    from feedChunks_fresh [OF unset, of c cs]
    obtain rest where rest: "snd (feedChunks st (c # cs))
          = Created (chunk_id c) (chunk_created c) (chunk_model c) # rest"
        and none: "filter isCreated rest = []"
      by blast
    have "sentCreated (fst (feedChunks st (c # cs)))"
      using feedChunks_latched [OF translate_sets_latch, of c st cs] by (simp add: Let_def)
    with rest none chunks show ?thesis by simp
  qed
  from fresh once translate_created_latched [of st chunk] loop show ?thesis by blast
qed

text \<open>
  The theorem at the fresh state and three chunks, the second with a text delta and the
  third with a finish reason: one \<^verbatim>\<open>response.created\<close> event, from the first chunk.
\<close>

theorem created_exactly_once_witness:
  "length (filter isCreated (snd (feedChunks streamState
     [\<lparr>chunk_id = ''r1'', chunk_model = ''m'', chunk_created = 5, chunk_choices = []\<rparr>,
      \<lparr>chunk_id = ''r1'', chunk_model = ''m'', chunk_created = 5,
       chunk_choices = [\<lparr>cc_index = 0,
         cc_delta = \<lparr>delta_content = Some ''hi'', delta_role = None, delta_tool_calls = None\<rparr>,
         cc_finish_reason = None\<rparr>]\<rparr>,
      \<lparr>chunk_id = ''r1'', chunk_model = ''m'', chunk_created = 5,
       chunk_choices = [\<lparr>cc_index = 0,
         cc_delta = \<lparr>delta_content = None, delta_role = None, delta_tool_calls = None\<rparr>,
         cc_finish_reason = Some ''stop''\<rparr>]\<rparr>]))) = 1
   \<and> snd (feedChunks streamState
     [\<lparr>chunk_id = ''r1'', chunk_model = ''m'', chunk_created = 5, chunk_choices = []\<rparr>,
      \<lparr>chunk_id = ''r1'', chunk_model = ''m'', chunk_created = 5,
       chunk_choices = [\<lparr>cc_index = 0,
         cc_delta = \<lparr>delta_content = Some ''hi'', delta_role = None, delta_tool_calls = None\<rparr>,
         cc_finish_reason = None\<rparr>]\<rparr>,
      \<lparr>chunk_id = ''r1'', chunk_model = ''m'', chunk_created = 5,
       chunk_choices = [\<lparr>cc_index = 0,
         cc_delta = \<lparr>delta_content = None, delta_role = None, delta_tool_calls = None\<rparr>,
         cc_finish_reason = Some ''stop''\<rparr>]\<rparr>])
     = [Created ''r1'' 5 ''m'', OutputTextDelta ''msg_r1_0'' 0 ''hi'',
        Completed ''r1'' ''completed'']"
proof -
  let ?cs = "[\<lparr>chunk_id = ''r1'', chunk_model = ''m'', chunk_created = 5, chunk_choices = []\<rparr>,
      \<lparr>chunk_id = ''r1'', chunk_model = ''m'', chunk_created = 5,
       chunk_choices = [\<lparr>cc_index = 0,
         cc_delta = \<lparr>delta_content = Some ''hi'', delta_role = None, delta_tool_calls = None\<rparr>,
         cc_finish_reason = None\<rparr>]\<rparr>,
      \<lparr>chunk_id = ''r1'', chunk_model = ''m'', chunk_created = 5,
       chunk_choices = [\<lparr>cc_index = 0,
         cc_delta = \<lparr>delta_content = None, delta_role = None, delta_tool_calls = None\<rparr>,
         cc_finish_reason = Some ''stop''\<rparr>]\<rparr>]"
  have hyps: "\<not> sentCreated streamState \<and> ?cs \<noteq> []"
    by (simp add: streamState_def)
  from created_exactly_once [of streamState ?cs] hyps
  have one: "length (filter isCreated (snd (feedChunks streamState ?cs))) = 1"
    by blast
  have run: "snd (feedChunks streamState ?cs)
      = [Created ''r1'' 5 ''m'', OutputTextDelta ''msg_r1_0'' 0 ''hi'',
         Completed ''r1'' ''completed'']"
    by (simp add: streamState_def translateChatChunkToResponsesEvents_def choiceStep_def
        Let_def decimal_0)
  from one run show ?thesis by blast
qed

text \<open>
  C8. The events that \<^verbatim>\<open>translateChatChunkToResponsesEvents\<close> returns for a sequence of
  chunks are a function of the chunks and of two fields of the state it is given, the
  latch \<^verbatim>\<open>sentCreated\<close> and the map \<^verbatim>\<open>toolCallIds\<close>: two states that agree on these
  fields, fed the same chunks in the same order, give the same events and agree again at
  the end. Two states created fresh, each equal to the literal of the streaming branch,
  are such states, so they give identical event sequences.
\<close>

theorem feedChunks_deterministic:
  "(sentCreated s = sentCreated t \<and> toolCallIds s = toolCallIds t
      \<longrightarrow> snd (feedChunks s chunks) = snd (feedChunks t chunks)
        \<and> sentCreated (fst (feedChunks s chunks)) = sentCreated (fst (feedChunks t chunks))
        \<and> toolCallIds (fst (feedChunks s chunks)) = toolCallIds (fst (feedChunks t chunks)))
   \<and> (s = streamState \<and> t = streamState
      \<longrightarrow> snd (feedChunks s chunks) = snd (feedChunks t chunks))"
proof -
  have "snd (feedChunks s chunks) = snd (feedChunks t chunks)
      \<and> sentCreated (fst (feedChunks s chunks)) = sentCreated (fst (feedChunks t chunks))
      \<and> toolCallIds (fst (feedChunks s chunks)) = toolCallIds (fst (feedChunks t chunks))"
    if "sentCreated s = sentCreated t \<and> toolCallIds s = toolCallIds t"
  proof -
    from that have "sameView s t"
      by (simp add: sameView_def)
    from feedChunks_view [OF this, of chunks] show ?thesis
      by (simp add: sameView_def)
  qed
  then show ?thesis by blast
qed

text \<open>
  The theorem at the fresh state and at a state that differs from it in the two fields
  that are not read: the same chunks give the same three events.
\<close>

theorem feedChunks_deterministic_witness:
  "snd (feedChunks (streamState\<lparr>responseId := ''old'', currentItemIndex := 9\<rparr>)
     [\<lparr>chunk_id = ''r1'', chunk_model = ''m'', chunk_created = 5,
       chunk_choices = [\<lparr>cc_index = 0,
         cc_delta = \<lparr>delta_content = Some ''hi'', delta_role = None, delta_tool_calls = None\<rparr>,
         cc_finish_reason = Some ''stop''\<rparr>]\<rparr>])
   = snd (feedChunks streamState
     [\<lparr>chunk_id = ''r1'', chunk_model = ''m'', chunk_created = 5,
       chunk_choices = [\<lparr>cc_index = 0,
         cc_delta = \<lparr>delta_content = Some ''hi'', delta_role = None, delta_tool_calls = None\<rparr>,
         cc_finish_reason = Some ''stop''\<rparr>]\<rparr>])
   \<and> snd (feedChunks streamState
     [\<lparr>chunk_id = ''r1'', chunk_model = ''m'', chunk_created = 5,
       chunk_choices = [\<lparr>cc_index = 0,
         cc_delta = \<lparr>delta_content = Some ''hi'', delta_role = None, delta_tool_calls = None\<rparr>,
         cc_finish_reason = Some ''stop''\<rparr>]\<rparr>])
   = [Created ''r1'' 5 ''m'', OutputTextDelta ''msg_r1_0'' 0 ''hi'',
      Completed ''r1'' ''completed'']"
proof -
  let ?cs = "[\<lparr>chunk_id = ''r1'', chunk_model = ''m'', chunk_created = 5,
       chunk_choices = [\<lparr>cc_index = 0,
         cc_delta = \<lparr>delta_content = Some ''hi'', delta_role = None, delta_tool_calls = None\<rparr>,
         cc_finish_reason = Some ''stop''\<rparr>]\<rparr>]"
  let ?s = "streamState\<lparr>responseId := ''old'', currentItemIndex := 9\<rparr>"
  have hyps: "sentCreated ?s = sentCreated streamState
      \<and> toolCallIds ?s = toolCallIds streamState"
    by simp
  from feedChunks_deterministic [of ?s streamState ?cs] hyps
  have same: "snd (feedChunks ?s ?cs) = snd (feedChunks streamState ?cs)"
    by blast
  have run: "snd (feedChunks streamState ?cs)
      = [Created ''r1'' 5 ''m'', OutputTextDelta ''msg_r1_0'' 0 ''hi'',
         Completed ''r1'' ''completed'']"
    by (simp add: streamState_def translateChatChunkToResponsesEvents_def choiceStep_def
        Let_def decimal_0)
  from same run show ?thesis by blast
qed

text \<open>
  C6, as the code has it. A fragment that carries a non-empty id stores it in
  \<^verbatim>\<open>toolCallIds\<close> under its index, replacing an id stored there before, so the map holds
  the id seen last for an index, which is the first one when no later fragment of that
  index carries a different id. The events of a fragment all carry one id: the id stored
  for the index before the fragment if there is one, otherwise the id of the fragment
  itself, otherwise the placeholder \<^verbatim>\<open>call_<index>\<close>. Hence, once an id is stored for an
  index and no later fragment of that index carries a different id, every later event of
  that index carries the stored id, and it stays stored.
\<close>

theorem toolCallIds_remembered:
  "toolCallIds (fst (toolCallStep (st, ev) tc))
     = (if truthy (tcd_id tc) then (toolCallIds st)(tcd_index tc \<mapsto> the (tcd_id tc))
        else toolCallIds st)
   \<and> (\<exists>new. snd (toolCallStep (st, ev) tc) = ev @ new
         \<and> list_all (\<lambda>p. p = (tcd_index tc, fragmentId st tc))
             (concat (map eventCallIds new)))
   \<and> (truthy (toolCallIds st (tcd_index tc))
        \<longrightarrow> fragmentId st tc = the (toolCallIds st (tcd_index tc)))
   \<and> (\<not> truthy (toolCallIds st (tcd_index tc)) \<and> truthy (tcd_id tc)
        \<longrightarrow> fragmentId st tc = the (tcd_id tc))
   \<and> (\<not> truthy (toolCallIds st (tcd_index tc)) \<and> \<not> truthy (tcd_id tc)
        \<longrightarrow> fragmentId st tc = ''call_'' @ decimal (tcd_index tc))
   \<and> (toolCallIds st k = Some x \<and> x \<noteq> []
        \<and> list_all (consistentFragment k x) (fragments chunks)
        \<longrightarrow> carriesOnly k x (snd (feedChunks st chunks))
          \<and> toolCallIds (fst (feedChunks st chunks)) k = Some x)"
proof -
  have stable: "carriesOnly k x (snd (feedChunks st chunks))
      \<and> toolCallIds (fst (feedChunks st chunks)) k = Some x"
    if "toolCallIds st k = Some x \<and> x \<noteq> []
        \<and> list_all (consistentFragment k x) (fragments chunks)"
    using that feedChunks_stable [of st k x chunks] by blast
  from toolCallStep_store [of st ev tc] toolCallStep_ids [of st ev tc]
    fragmentId_stored [of st tc] fragmentId_own [of st tc] fragmentId_placeholder [of st tc]
    stable
  show ?thesis by blast
qed

text \<open>
  The theorem on the chunks of the scenario. The first chunk has the fragment with index
  0, id \<^verbatim>\<open>call_1\<close> and the name \<^verbatim>\<open>foo\<close>; the second has a fragment with index 0 and
  arguments only. After the first chunk the id is stored, the fragment of the second chunk
  carries no id, and its event carries \<^verbatim>\<open>call_1\<close>.
\<close>

theorem toolCallIds_remembered_witness:
  "snd (feedChunks streamState
     [\<lparr>chunk_id = ''r1'', chunk_model = ''m'', chunk_created = 5,
       chunk_choices = [\<lparr>cc_index = 0,
         cc_delta = \<lparr>delta_content = None, delta_role = None,
           delta_tool_calls = Some [\<lparr>tcd_index = 0, tcd_id = Some ''call_1'',
             tcd_function = Some \<lparr>delta_name = Some ''foo'', delta_arguments = None\<rparr>\<rparr>]\<rparr>,
         cc_finish_reason = None\<rparr>]\<rparr>])
     = [Created ''r1'' 5 ''m'',
        OutputItemAdded 0 (OutputFunctionCall ''call_1'' ''call_1'' ''foo'' [] None)]
   \<and> toolCallIds (fst (feedChunks streamState
     [\<lparr>chunk_id = ''r1'', chunk_model = ''m'', chunk_created = 5,
       chunk_choices = [\<lparr>cc_index = 0,
         cc_delta = \<lparr>delta_content = None, delta_role = None,
           delta_tool_calls = Some [\<lparr>tcd_index = 0, tcd_id = Some ''call_1'',
             tcd_function = Some \<lparr>delta_name = Some ''foo'', delta_arguments = None\<rparr>\<rparr>]\<rparr>,
         cc_finish_reason = None\<rparr>]\<rparr>])) 0 = Some ''call_1''
   \<and> snd (feedChunks (fst (feedChunks streamState
     [\<lparr>chunk_id = ''r1'', chunk_model = ''m'', chunk_created = 5,
       chunk_choices = [\<lparr>cc_index = 0,
         cc_delta = \<lparr>delta_content = None, delta_role = None,
           delta_tool_calls = Some [\<lparr>tcd_index = 0, tcd_id = Some ''call_1'',
             tcd_function = Some \<lparr>delta_name = Some ''foo'', delta_arguments = None\<rparr>\<rparr>]\<rparr>,
         cc_finish_reason = None\<rparr>]\<rparr>]))
     [\<lparr>chunk_id = ''r1'', chunk_model = ''m'', chunk_created = 5,
       chunk_choices = [\<lparr>cc_index = 0,
         cc_delta = \<lparr>delta_content = None, delta_role = None,
           delta_tool_calls = Some [\<lparr>tcd_index = 0, tcd_id = None,
             tcd_function = Some \<lparr>delta_name = None, delta_arguments = Some ''{x:1}''\<rparr>\<rparr>]\<rparr>,
         cc_finish_reason = None\<rparr>]\<rparr>])
     = [FunctionCallArgumentsDelta ''call_1'' 0 ''{x:1}'']
   \<and> carriesOnly 0 ''call_1'' (snd (feedChunks (fst (feedChunks streamState
     [\<lparr>chunk_id = ''r1'', chunk_model = ''m'', chunk_created = 5,
       chunk_choices = [\<lparr>cc_index = 0,
         cc_delta = \<lparr>delta_content = None, delta_role = None,
           delta_tool_calls = Some [\<lparr>tcd_index = 0, tcd_id = Some ''call_1'',
             tcd_function = Some \<lparr>delta_name = Some ''foo'', delta_arguments = None\<rparr>\<rparr>]\<rparr>,
         cc_finish_reason = None\<rparr>]\<rparr>]))
     [\<lparr>chunk_id = ''r1'', chunk_model = ''m'', chunk_created = 5,
       chunk_choices = [\<lparr>cc_index = 0,
         cc_delta = \<lparr>delta_content = None, delta_role = None,
           delta_tool_calls = Some [\<lparr>tcd_index = 0, tcd_id = None,
             tcd_function = Some \<lparr>delta_name = None, delta_arguments = Some ''{x:1}''\<rparr>\<rparr>]\<rparr>,
         cc_finish_reason = None\<rparr>]\<rparr>]))"
proof -
  let ?c1 = "\<lparr>chunk_id = ''r1'', chunk_model = ''m'', chunk_created = 5,
       chunk_choices = [\<lparr>cc_index = 0,
         cc_delta = \<lparr>delta_content = None, delta_role = None,
           delta_tool_calls = Some [\<lparr>tcd_index = 0, tcd_id = Some ''call_1'',
             tcd_function = Some \<lparr>delta_name = Some ''foo'', delta_arguments = None\<rparr>\<rparr>]\<rparr>,
         cc_finish_reason = None\<rparr>]\<rparr>"
  let ?c2 = "\<lparr>chunk_id = ''r1'', chunk_model = ''m'', chunk_created = 5,
       chunk_choices = [\<lparr>cc_index = 0,
         cc_delta = \<lparr>delta_content = None, delta_role = None,
           delta_tool_calls = Some [\<lparr>tcd_index = 0, tcd_id = None,
             tcd_function = Some \<lparr>delta_name = None, delta_arguments = Some ''{x:1}''\<rparr>\<rparr>]\<rparr>,
         cc_finish_reason = None\<rparr>]\<rparr>"
  let ?s1 = "fst (feedChunks streamState [?c1])"
  have first: "feedChunks streamState [?c1]
      = (\<lparr>responseId = ''r1'', sentCreated = True, currentItemIndex = 0,
          toolCallIds = [0 \<mapsto> ''call_1'']\<rparr>,
         [Created ''r1'' 5 ''m'',
          OutputItemAdded 0 (OutputFunctionCall ''call_1'' ''call_1'' ''foo'' [] None)])"
    by (simp add: streamState_def translateChatChunkToResponsesEvents_def choiceStep_def
        toolCallStep_def fragmentId_def jsOr_def functionName_def functionArguments_def Let_def)
  have firstev: "snd (feedChunks streamState [?c1])
      = [Created ''r1'' 5 ''m'',
         OutputItemAdded 0 (OutputFunctionCall ''call_1'' ''call_1'' ''foo'' [] None)]"
    by (simp only: first snd_conv)
  have stored: "toolCallIds ?s1 0 = Some ''call_1''"
    by (simp only: first fst_conv) simp
  have second: "snd (feedChunks ?s1 [?c2]) = [FunctionCallArgumentsDelta ''call_1'' 0 ''{x:1}'']"
    by (simp only: first fst_conv)
      (simp add: translateChatChunkToResponsesEvents_def choiceStep_def
        toolCallStep_def fragmentId_def jsOr_def functionName_def functionArguments_def Let_def)
  have frags: "list_all (consistentFragment 0 ''call_1'') (fragments [?c2])"
    by (simp add: fragments_def chunkFragments_def choiceFragments_def consistentFragment_def)
  from toolCallIds_remembered [of ?s1 _ _ 0 "''call_1''" "[?c2]"] stored frags
  have "carriesOnly 0 ''call_1'' (snd (feedChunks ?s1 [?c2]))"
    by blast
  with firstev stored second show ?thesis by blast
qed

text \<open>
  C6 as stated fails: when a second fragment of index 0 carries another id, the map holds
  that id and not the first one, and the event of a third fragment carries it.
\<close>

theorem toolCallIds_first_id_counterexample:
  "snd (feedChunks streamState
     [\<lparr>chunk_id = ''r1'', chunk_model = ''m'', chunk_created = 5,
       chunk_choices = [\<lparr>cc_index = 0,
         cc_delta = \<lparr>delta_content = None, delta_role = None,
           delta_tool_calls = Some
             [\<lparr>tcd_index = 0, tcd_id = Some ''call_1'',
               tcd_function = Some \<lparr>delta_name = Some ''foo'', delta_arguments = None\<rparr>\<rparr>,
              \<lparr>tcd_index = 0, tcd_id = Some ''call_2'',
               tcd_function = Some \<lparr>delta_name = None, delta_arguments = Some ''{''\<rparr>\<rparr>,
              \<lparr>tcd_index = 0, tcd_id = None,
               tcd_function = Some \<lparr>delta_name = None, delta_arguments = Some ''}''\<rparr>\<rparr>]\<rparr>,
         cc_finish_reason = None\<rparr>]\<rparr>])
     = [Created ''r1'' 5 ''m'',
        OutputItemAdded 0 (OutputFunctionCall ''call_1'' ''call_1'' ''foo'' [] None),
        FunctionCallArgumentsDelta ''call_1'' 0 ''{'',
        FunctionCallArgumentsDelta ''call_2'' 0 ''}'']
   \<and> toolCallIds (fst (feedChunks streamState
     [\<lparr>chunk_id = ''r1'', chunk_model = ''m'', chunk_created = 5,
       chunk_choices = [\<lparr>cc_index = 0,
         cc_delta = \<lparr>delta_content = None, delta_role = None,
           delta_tool_calls = Some
             [\<lparr>tcd_index = 0, tcd_id = Some ''call_1'',
               tcd_function = Some \<lparr>delta_name = Some ''foo'', delta_arguments = None\<rparr>\<rparr>,
              \<lparr>tcd_index = 0, tcd_id = Some ''call_2'',
               tcd_function = Some \<lparr>delta_name = None, delta_arguments = Some ''{''\<rparr>\<rparr>,
              \<lparr>tcd_index = 0, tcd_id = None,
               tcd_function = Some \<lparr>delta_name = None, delta_arguments = Some ''}''\<rparr>\<rparr>]\<rparr>,
         cc_finish_reason = None\<rparr>]\<rparr>])) 0 = Some ''call_2''
   \<and> \<not> carriesOnly 0 ''call_1'' (snd (feedChunks streamState
     [\<lparr>chunk_id = ''r1'', chunk_model = ''m'', chunk_created = 5,
       chunk_choices = [\<lparr>cc_index = 0,
         cc_delta = \<lparr>delta_content = None, delta_role = None,
           delta_tool_calls = Some
             [\<lparr>tcd_index = 0, tcd_id = Some ''call_1'',
               tcd_function = Some \<lparr>delta_name = Some ''foo'', delta_arguments = None\<rparr>\<rparr>,
              \<lparr>tcd_index = 0, tcd_id = Some ''call_2'',
               tcd_function = Some \<lparr>delta_name = None, delta_arguments = Some ''{''\<rparr>\<rparr>,
              \<lparr>tcd_index = 0, tcd_id = None,
               tcd_function = Some \<lparr>delta_name = None, delta_arguments = Some ''}''\<rparr>\<rparr>]\<rparr>,
         cc_finish_reason = None\<rparr>]\<rparr>]))"
  by (simp add: streamState_def translateChatChunkToResponsesEvents_def choiceStep_def
      toolCallStep_def fragmentId_def jsOr_def functionName_def functionArguments_def Let_def
      carriesOnly_def)

section \<open>Claims on the handler\<close>

text \<open>
  C3. The request passes the rate limit and parses, its model supports the
  \<^verbatim>\<open>/responses\<close> endpoint, and \<^verbatim>\<open>createResponses\<close> fails with an error. Then a call to
  \<^verbatim>\<open>createChatCompletions\<close> is made if and only if the error is an \<^verbatim>\<open>HTTPError\<close> with
  status 400, 404 or 422 and the model supports \<^verbatim>\<open>/chat/completions\<close>. In that case the
  handler continues with the fallback block; in every other case (another status, an
  error that is not an \<^verbatim>\<open>HTTPError\<close>, a model without \<^verbatim>\<open>/chat/completions\<close>) the only
  upstream call is the primary one and the handler answers \<^verbatim>\<open>forwardError(c, error)\<close>
  with the error it caught, message, status and body unchanged.
\<close>

theorem fallback_eligibility:
  "checkRateLimit env = None \<and> parseBody env rawBody = Some payload0
   \<and> payload = normalizePayload env payload0
   \<and> supportsResponses env payload \<and> createResponses env payload = Inl error
   \<longrightarrow>
     ((\<exists>chatPayload. CallChatCompletions chatPayload \<in> set (fst (handleResponses env rawBody)))
        \<longleftrightarrow> (\<exists>m s b. error = HTTPError m s b \<and> s \<in> {400, 404, 422})
            \<and> supportsChatCompletions env payload)
     \<and> ((\<exists>m s b. error = HTTPError m s b \<and> s \<in> {400, 404, 422})
          \<and> supportsChatCompletions env payload
          \<longrightarrow> handleResponses env rawBody = fallbackToChat env [CallResponses payload] payload)
     \<and> (\<not> ((\<exists>m s b. error = HTTPError m s b \<and> s \<in> {400, 404, 422})
              \<and> supportsChatCompletions env payload)
          \<longrightarrow> handleResponses env rawBody = ([CallResponses payload], ForwardError error))"
proof (intro impI)
  assume hyps: "checkRateLimit env = None \<and> parseBody env rawBody = Some payload0
      \<and> payload = normalizePayload env payload0
      \<and> supportsResponses env payload \<and> createResponses env payload = Inl error"
  let ?eligible = "(\<exists>m s b. error = HTTPError m s b \<and> s \<in> {400, 404, 422})
      \<and> supportsChatCompletions env payload"
  have run: "handleResponses env rawBody
      = (if shouldFallbackToChat error (supportsChatCompletions env payload)
         then fallbackToChat env [CallResponses payload] payload
         else ([CallResponses payload], ForwardError error))"
  proof -
    from hyps have p: "payload = normalizePayload env payload0" by blast
    from hyps have "checkRateLimit env = None" and "parseBody env rawBody = Some payload0"
      and "supportsResponses env (normalizePayload env payload0)"
      and "createResponses env (normalizePayload env payload0) = Inl error"
      by (simp_all add: p)
    then show ?thesis
      unfolding p by (rule handleResponses_primary_failed)
  qed
  have elig: "shouldFallbackToChat error (supportsChatCompletions env payload) \<longleftrightarrow> ?eligible"
    using shouldFallbackToChat_iff [of error "supportsChatCompletions env payload"] by blast
  have yes: "handleResponses env rawBody = fallbackToChat env [CallResponses payload] payload"
    if ?eligible
  proof -
    from that elig have "shouldFallbackToChat error (supportsChatCompletions env payload)"
      by blast
    with run show ?thesis by simp
  qed
  have no: "handleResponses env rawBody = ([CallResponses payload], ForwardError error)"
    if "\<not> ?eligible"
  proof -
    from that elig have "\<not> shouldFallbackToChat error (supportsChatCompletions env payload)"
      by blast
    with run show ?thesis by simp
  qed
  have "(\<exists>chatPayload. CallChatCompletions chatPayload
          \<in> set (fst (handleResponses env rawBody))) \<longleftrightarrow> ?eligible"
  proof (cases ?eligible)
    case True
    then have "fst (handleResponses env rawBody)
        = [CallResponses payload, CallChatCompletions (translateResponsesToChatPayload payload)]"
      by (simp add: yes fst_fallbackToChat)
    with True show ?thesis by auto
  next
    case False
    then have "fst (handleResponses env rawBody) = [CallResponses payload]"
      by (simp add: no)
    with False show ?thesis by auto
  qed
  with yes no show "((\<exists>chatPayload. CallChatCompletions chatPayload
          \<in> set (fst (handleResponses env rawBody))) \<longleftrightarrow> ?eligible)
      \<and> (?eligible
          \<longrightarrow> handleResponses env rawBody = fallbackToChat env [CallResponses payload] payload)
      \<and> (\<not> ?eligible
          \<longrightarrow> handleResponses env rawBody = ([CallResponses payload], ForwardError error))"
    by blast
qed

text \<open>
  The theorem at three environments: the primary endpoint answers 429 (no fallback, the
  error is forwarded); it answers 404 and the model supports both endpoints (fallback);
  it answers 404 and the model supports only \<^verbatim>\<open>/responses\<close> (no fallback).
\<close>

theorem fallback_eligibility_witness:
  "handleResponses (exampleEnv None 429) ''{}''
     = ([CallResponses hiNormalized],
        ForwardError (HTTPError ''Failed to create responses'' 429 ''refused''))
   \<and> handleResponses (exampleEnv None 404) ''{}''
     = ([CallResponses hiNormalized,
         CallChatCompletions (translateResponsesToChatPayload hiNormalized)],
        ReplyJson (translateChatResponseToResponses helloResponse))
   \<and> handleResponses (exampleEnv (Some [''/responses'']) 404) ''{}''
     = ([CallResponses hiNormalized],
        ForwardError (HTTPError ''Failed to create responses'' 404 ''refused''))"
proof -
  have pre: "checkRateLimit (exampleEnv eps status) = None
      \<and> parseBody (exampleEnv eps status) ''{}'' = Some hiPayload
      \<and> hiNormalized = normalizePayload (exampleEnv eps status) hiPayload" for eps status
    by (simp add: normalize_hiPayload) (simp add: exampleEnv_def)
  have a: "handleResponses (exampleEnv None 429) ''{}''
      = ([CallResponses hiNormalized],
         ForwardError (HTTPError ''Failed to create responses'' 429 ''refused''))"
    using fallback_eligibility [of "exampleEnv None 429" "''{}''" hiPayload hiNormalized
        "HTTPError ''Failed to create responses'' 429 ''refused''"]
      pre [of None 429]
    by (simp add: supports_example createResponses_example)
  have b: "handleResponses (exampleEnv None 404) ''{}''
      = fallbackToChat (exampleEnv None 404) [CallResponses hiNormalized] hiNormalized"
    using fallback_eligibility [of "exampleEnv None 404" "''{}''" hiPayload hiNormalized
        "HTTPError ''Failed to create responses'' 404 ''refused''"]
      pre [of None 404]
    by (simp add: supports_example createResponses_example)
  have c: "handleResponses (exampleEnv (Some [''/responses'']) 404) ''{}''
      = ([CallResponses hiNormalized],
         ForwardError (HTTPError ''Failed to create responses'' 404 ''refused''))"
    using fallback_eligibility [of "exampleEnv (Some [''/responses'']) 404" "''{}''"
        hiPayload hiNormalized "HTTPError ''Failed to create responses'' 404 ''refused''"]
      pre [of "Some [''/responses'']" 404]
    by (simp add: supports_example createResponses_example)
  from a b c show ?thesis
    by (simp add: fallbackToChat_example)
qed

text \<open>
  C1 does not hold of the code. For the request of the scenario and a model whose
  \<^verbatim>\<open>supported_endpoints\<close> is \<^verbatim>\<open>["/chat/completions"]\<close>, the handler computes that the
  model supports Chat-Completions and skips the primary attempt, but the fallback block
  is guarded by \<^verbatim>\<open>supportsChatCompletions && lastError\<close> and \<^verbatim>\<open>lastError\<close> is still
  \<^verbatim>\<open>null\<close>: no upstream call is made and the answer is the error 400 saying that the
  model does not support any compatible endpoint. The fallback block, had it been
  entered, would have sent \<^verbatim>\<open>messages: [{role: "user", content: "hi"}]\<close> and returned the
  translated reply.
\<close>

theorem chat_only_model_unsupported:
  "supportsChatCompletions (exampleEnv (Some [''/chat/completions'']) 200) hiNormalized
   \<and> \<not> supportsResponses (exampleEnv (Some [''/chat/completions'']) 200) hiNormalized
   \<and> handleResponses (exampleEnv (Some [''/chat/completions'']) 200) ''{}''
       = ([], UnsupportedModel ''gpt-4o'')
   \<and> fallbackToChat (exampleEnv (Some [''/chat/completions'']) 200) [] hiNormalized
       = ([CallChatCompletions (translateResponsesToChatPayload hiNormalized)],
          ReplyJson (translateChatResponseToResponses helloResponse))
   \<and> messages (translateResponsesToChatPayload hiNormalized)
       = [\<lparr>role = ''user'', content = ChatString ''hi'', tool_calls = None,
           tool_call_id = None\<rparr>]"
proof -
  let ?env = "exampleEnv (Some [''/chat/completions'']) 200"
  have chat: "supportsChatCompletions ?env hiNormalized"
    by (simp add: supports_example)
  have noresp: "\<not> supportsResponses ?env hiNormalized"
    by (simp add: supports_example)
  have "checkRateLimit ?env = None" and "parseBody ?env ''{}'' = Some hiPayload"
    by (simp_all add: exampleEnv_def)
  moreover have "\<not> supportsResponses ?env (normalizePayload ?env hiPayload)"
    using noresp by (simp add: normalize_hiPayload)
  ultimately have "handleResponses ?env ''{}''
      = ([], UnsupportedModel (model (normalizePayload ?env hiPayload)))"
    by (rule handleResponses_primary_skipped)
  then have "handleResponses ?env ''{}'' = ([], UnsupportedModel (model hiNormalized))"
    by (simp only: normalize_hiPayload)
  moreover have "model hiNormalized = ''gpt-4o''"
    by (simp add: hiNormalized_def hiPayload_def)
  ultimately have run: "handleResponses ?env ''{}'' = ([], UnsupportedModel ''gpt-4o'')"
    by simp
  from chat noresp run fallbackToChat_example [of "Some [''/chat/completions'']" 200 "[]"]
    translate_hi_messages
  show ?thesis by simp
qed

text \<open>
  C9. The translations produce no status other than \<^verbatim>\<open>completed\<close>. The response built by
  \<^verbatim>\<open>translateChatResponseToResponses\<close> has the top-level status \<^verbatim>\<open>completed\<close>, which is
  neither \<^verbatim>\<open>incomplete\<close> nor \<^verbatim>\<open>failed\<close>, and every output item has the status
  \<^verbatim>\<open>completed\<close>, whatever the \<^verbatim>\<open>finish_reason\<close> of the choices; a
  \<^verbatim>\<open>response.completed\<close> event returned by \<^verbatim>\<open>translateChatChunkToResponsesEvents\<close> has
  the status \<^verbatim>\<open>completed\<close>, whatever the \<^verbatim>\<open>finish_reason\<close> of the chunk; and so have the
  JSON reply and the events that the fallback block of the handler answers with.
\<close>

theorem status_always_completed:
  "response_status (translateChatResponseToResponses r) = Some ''completed''
   \<and> response_status (translateChatResponseToResponses r) \<noteq> Some ''incomplete''
   \<and> response_status (translateChatResponseToResponses r) \<noteq> Some ''failed''
   \<and> list_all (\<lambda>it. itemStatus it = Some ''completed'')
        (response_output (translateChatResponseToResponses r))
   \<and> (Completed i s \<in> set (snd (translateChatChunkToResponsesEvents chunk st))
        \<longrightarrow> s = ''completed'')
   \<and> (snd (fallbackToChat env calls payload) = ReplyJson response
        \<longrightarrow> response_status response = Some ''completed''
          \<and> list_all (\<lambda>it. itemStatus it = Some ''completed'') (response_output response))
   \<and> (snd (fallbackToChat env calls payload) = ReplyEvents evs \<and> Completed i s \<in> set evs
        \<longrightarrow> s = ''completed'')"
proof -
  have top: "response_status (translateChatResponseToResponses r) = Some ''completed''"
    by (simp add: translateChatResponseToResponses_def)
  have ev: "s = ''completed''"
    if "Completed i s \<in> set (snd (translateChatChunkToResponsesEvents chunk st))"
    using translate_completedOk that by (rule completedOk_status)
  have evs: "s = ''completed''"
    if "snd (fallbackToChat env calls payload) = ReplyEvents evs \<and> Completed i s \<in> set evs"
    using that fallbackToChat_events [of env calls payload evs] completedOk_status [of evs i s]
    by blast
  from top response_output_completed [of r] ev evs
    fallbackToChat_json [of env calls payload response]
  show ?thesis by simp
qed

text \<open>
  The theorem at a chunk whose choice finished with \<^verbatim>\<open>length\<close> and at the reply of the
  fallback block for a response whose choice finished with \<^verbatim>\<open>length\<close>.
\<close>

theorem status_always_completed_witness:
  "snd (translateChatChunkToResponsesEvents
     \<lparr>chunk_id = ''r1'', chunk_model = ''m'', chunk_created = 5,
      chunk_choices = [\<lparr>cc_index = 0,
        cc_delta = \<lparr>delta_content = None, delta_role = None, delta_tool_calls = None\<rparr>,
        cc_finish_reason = Some ''length''\<rparr>]\<rparr> streamState)
     = [Created ''r1'' 5 ''m'', Completed ''r1'' ''completed'']
   \<and> choice_finish_reason (hd (choices helloResponse)) = ''length''
   \<and> snd (fallbackToChat (exampleEnv None 404) [] hiNormalized)
       = ReplyJson (translateChatResponseToResponses helloResponse)
   \<and> response_status (translateChatResponseToResponses helloResponse) = Some ''completed''
   \<and> response_output (translateChatResponseToResponses helloResponse)
       = [OutputMessage ''msg_c1_0'' [OutputText ''hello''] (Some ''completed'')]"
proof -
  let ?chunk = "\<lparr>chunk_id = ''r1'', chunk_model = ''m'', chunk_created = 5,
      chunk_choices = [\<lparr>cc_index = 0,
        cc_delta = \<lparr>delta_content = None, delta_role = None, delta_tool_calls = None\<rparr>,
        cc_finish_reason = Some ''length''\<rparr>]\<rparr>"
  have run: "snd (translateChatChunkToResponsesEvents ?chunk streamState)
      = [Created ''r1'' 5 ''m'', Completed ''r1'' ''completed'']"
    by (simp add: streamState_def translateChatChunkToResponsesEvents_def choiceStep_def Let_def)
  have reply: "snd (fallbackToChat (exampleEnv None 404) [] hiNormalized)
      = ReplyJson (translateChatResponseToResponses helloResponse)"
    by (simp add: fallbackToChat_example)
  from status_always_completed
      [of helloResponse _ _ _ _ "exampleEnv None 404" "[]" hiNormalized
        "translateChatResponseToResponses helloResponse"] reply
  have "response_status (translateChatResponseToResponses helloResponse) = Some ''completed''"
    by blast
  moreover have "choice_finish_reason (hd (choices helloResponse)) = ''length''"
    by (simp add: helloResponse_def)
  ultimately show ?thesis
    using run reply by (simp add: translate_helloResponse)
qed

end
